theory Spec2Isabelle
  imports Main "HOL-Library.Word"
begin

unbundle bit_operations_syntax

section \<open>Validation of CIDR text: the regular expression of the schema\<close>

text \<open>
  The schema validators of \<open>from_cidrs\<close>/\<open>parent_cidrs\<close> and \<open>used_cidrs\<close>
  (\<open>stringvalidator.RegexMatches\<close>) and \<open>ImportState\<close> all use one pattern:

  \<^verbatim>\<open>^(?:[0-9]|[0-9]{2}|1[0-9][0-9]|2[0-4][0-9]|25[0-5])
   (?:\.(?:[0-9]|[0-9]{2}|1[0-9][0-9]|2[0-4][0-9]|25[0-5])){3}
   (?:\/(?:[1-9]|[1-2][0-9]|3[0-2]))$\<close>

  The pattern uses literals, character ranges, concatenation, alternation and counted
  repetition only. \<open>regexp\<close> is that fragment; \<open>(?: )\<close> only groups.
\<close>

datatype regexp =
    Eps
  | Lit char
  | Range char char
  | Cat regexp regexp
  | Alt regexp regexp

text \<open>Counted repetition \<open>r{n}\<close> is \<open>n\<close> copies of \<open>r\<close> in a row.\<close>

fun times :: "nat \<Rightarrow> regexp \<Rightarrow> regexp" where
  "times 0 r = Eps"
| "times (Suc n) r = Cat r (times n r)"

text \<open>
  \<open>match_prefix r s\<close> lists what is left of \<open>s\<close> after each way of matching \<open>r\<close> at
  its start. A character class compares byte values.
\<close>

fun match_prefix :: "regexp \<Rightarrow> string \<Rightarrow> string list" where
  "match_prefix Eps s = [s]"
| "match_prefix (Lit c) s =
     (case s of [] \<Rightarrow> [] | x # xs \<Rightarrow> if x = c then [xs] else [])"
| "match_prefix (Range a b) s =
     (case s of [] \<Rightarrow> []
      | x # xs \<Rightarrow>
          if (of_char a :: nat) \<le> of_char x \<and> (of_char x :: nat) \<le> of_char b
          then [xs] else [])"
| "match_prefix (Cat r1 r2) s = concat (map (match_prefix r2) (match_prefix r1 s))"
| "match_prefix (Alt r1 r2) s = match_prefix r1 s @ match_prefix r2 s"

text \<open>
  The pattern starts with \<open>^\<close> and ends with \<open>$\<close> (no multi-line flag), so
  \<open>Match\<close> holds when the pattern matches the whole text.
\<close>

definition Match :: "regexp \<Rightarrow> string \<Rightarrow> bool" where
  "Match r s = ([] \<in> set (match_prefix r s))"

definition digit_class :: regexp where
  "digit_class = Range (CHR ''0'') (CHR ''9'')"

text \<open>\<^verbatim>\<open>(?:[0-9]|[0-9]{2}|1[0-9][0-9]|2[0-4][0-9]|25[0-5])\<close>\<close>

definition octet_pattern :: regexp where
  "octet_pattern =
     Alt digit_class
    (Alt (times 2 digit_class)
    (Alt (Cat (Lit (CHR ''1'')) (Cat digit_class digit_class))
    (Alt (Cat (Lit (CHR ''2'')) (Cat (Range (CHR ''0'') (CHR ''4'')) digit_class))
         (Cat (Lit (CHR ''2'')) (Cat (Lit (CHR ''5'')) (Range (CHR ''0'') (CHR ''5'')))))))"

text \<open>\<^verbatim>\<open>(?:[1-9]|[1-2][0-9]|3[0-2])\<close>\<close>

definition prefix_pattern :: regexp where
  "prefix_pattern =
     Alt (Range (CHR ''1'') (CHR ''9''))
    (Alt (Cat (Range (CHR ''1'') (CHR ''2'')) digit_class)
         (Cat (Lit (CHR ''3'')) (Range (CHR ''0'') (CHR ''2''))))"

definition cidr_pattern :: regexp where
  "cidr_pattern =
     Cat octet_pattern
    (Cat (times 3 (Cat (Lit (CHR ''.'')) octet_pattern))
         (Cat (Lit (CHR ''/'')) prefix_pattern))"

text \<open>What the validators and \<open>ImportState\<close> test: \<open>validation.Match([]byte(s))\<close>.\<close>

definition valid_cidr_text :: "string \<Rightarrow> bool" where
  "valid_cidr_text s = Match cidr_pattern s"

section \<open>Go's \<open>net\<close> package: \<open>ParseCIDR\<close>, \<open>CIDRMask\<close>, \<open>IPNet.String\<close>\<close>

text \<open>
  \<open>Create\<close> parses every CIDR string with \<open>net.ParseCIDR\<close>, builds the requested mask
  with \<open>net.CIDRMask\<close> and renders the result with \<open>(*net.IPNet).String\<close>. These are
  functions of Go's standard library; the definitions below follow the library's IPv4
  path (\<open>dtoi\<close>, \<open>parseIPv4\<close>, \<open>ParseCIDR\<close>). The IPv6 path is left out: the model
  rejects a text whose address part is not a dotted quad.

  An \<open>IPNet\<close> holds a 4-byte address and a 4-byte mask. The address is kept as the
  32-bit number of its bytes (first byte most significant), and a mask built by
  \<open>CIDRMask(ones, 32)\<close> as its number of leading one bits.
\<close>

record IPNet =
  IP :: "32 word"
  Mask :: nat

definition isDigit :: "char \<Rightarrow> bool" where
  "isDigit c = ((48::nat) \<le> of_char c \<and> (of_char c :: nat) \<le> 57)"

definition big :: nat where
  "big = 16777215"

text \<open>
  \<open>dtoi\<close>: decimal to integer. Returns the number, the count of characters consumed
  and success; fails on no digit at all and on a number of \<open>0xFFFFFF\<close> or more.
\<close>

fun dtoi_loop :: "string \<Rightarrow> nat \<Rightarrow> nat \<Rightarrow> nat \<times> nat \<times> bool" where
  "dtoi_loop [] n i = (n, i, True)"
| "dtoi_loop (c # s) n i =
     (if isDigit c then
        (let n' = n * 10 + (of_char c - 48) in
         if n' \<ge> big then (big, i, False) else dtoi_loop s n' (Suc i))
      else (n, i, True))"

definition dtoi :: "string \<Rightarrow> nat \<times> nat \<times> bool" where
  "dtoi s =
     (case dtoi_loop s 0 0 of
        (n, i, ok) \<Rightarrow> if ok \<and> i = 0 then (0, 0, False) else (n, i, ok))"

text \<open>
  \<open>parseIPv4\<close>: four decimal fields separated by dots, each at most 255 and, when it
  has more than one digit, not starting with 0. The first argument counts the fields
  still to read; \<open>p\<close> holds the bytes read so far (so \<open>i > 0\<close> is \<open>p \<noteq> []\<close>).
\<close>

fun parseIPv4_loop :: "nat \<Rightarrow> string \<Rightarrow> nat list \<Rightarrow> nat list option" where
  "parseIPv4_loop 0 s p = (if s \<noteq> [] then None else Some p)"
| "parseIPv4_loop (Suc k) s p =
     (if s = [] then None
      else if p \<noteq> [] \<and> hd s \<noteq> CHR ''.'' then None
      else
        (let s1 = (if p \<noteq> [] then tl s else s) in
         case dtoi s1 of
           (n, c, ok) \<Rightarrow>
             if \<not> ok \<or> n > 255 then None
             else if c > 1 \<and> hd s1 = CHR ''0'' then None
             else parseIPv4_loop k (drop c s1) (p @ [n])))"

text \<open>\<open>IPv4(a, b, c, d)\<close>, as one 32-bit number.\<close>

fun IPv4 :: "nat list \<Rightarrow> 32 word" where
  "IPv4 [a, b, c, d] = word_of_nat (((a * 256 + b) * 256 + c) * 256 + d)"
| "IPv4 p = 0"

definition parseIPv4 :: "string \<Rightarrow> 32 word option" where
  "parseIPv4 s = map_option IPv4 (parseIPv4_loop 4 s [])"

text \<open>
  \<open>CIDRMask(ones, bits)\<close>: \<open>nil\<close> (here \<open>None\<close>) unless \<open>0 \<le> ones \<le> bits\<close>. Only
  \<open>bits = 32\<close> is ever asked for.
\<close>

definition CIDRMask :: "int \<Rightarrow> int \<Rightarrow> nat option" where
  "CIDRMask ones bits =
     (if bits \<noteq> 32 then None
      else if ones < 0 \<or> ones > bits then None
      else Some (nat ones))"

text \<open>\<open>ip.Mask(m)\<close> for \<open>m = CIDRMask(ones, 32)\<close>: the host bits are cleared.\<close>

definition IP_Mask :: "32 word \<Rightarrow> nat \<Rightarrow> 32 word" where
  "IP_Mask ip ones = ip AND NOT (mask (32 - ones))"

fun IndexByteString :: "string \<Rightarrow> char \<Rightarrow> nat option" where
  "IndexByteString [] c = None"
| "IndexByteString (x # xs) c =
     (if x = c then Some 0 else map_option Suc (IndexByteString xs c))"

datatype ParseError = ParseError string string

text \<open>
  \<open>ParseCIDR\<close> returns the address, the network and an error; \<open>Create\<close> only uses the
  network and the error, so the model returns those.
\<close>

definition ParseCIDR :: "string \<Rightarrow> ParseError + IPNet" where
  "ParseCIDR s =
     (case IndexByteString s (CHR ''/'') of
        None \<Rightarrow> Inl (ParseError ''CIDR address'' s)
      | Some i \<Rightarrow>
          (let addr = take i s; msk = drop (Suc i) s; ip = parseIPv4 addr in
           case dtoi msk of
             (n, j, ok) \<Rightarrow>
               (case ip of
                  None \<Rightarrow> Inl (ParseError ''CIDR address'' s)
                | Some a \<Rightarrow>
                    if \<not> ok \<or> j \<noteq> length msk \<or> n > 32
                    then Inl (ParseError ''CIDR address'' s)
                    else Inr \<lparr>IP = IP_Mask a n, Mask = n\<rparr>)))"

text \<open>\<open>uitoa\<close>: an unsigned number in decimal, without leading zeros.\<close>

function uitoa :: "nat \<Rightarrow> string" where
  "uitoa val =
     (if val < 10 then [char_of (48 + val)]
      else uitoa (val div 10) @ [char_of (48 + val mod 10)])"
  by pat_completeness auto
termination
  by (relation "measure id") auto

declare uitoa.simps [simp del]

text \<open>The four bytes of an address, and \<open>IP.String\<close>: dotted decimal.\<close>

definition IP_bytes :: "32 word \<Rightarrow> nat list" where
  "IP_bytes w =
     [unat w div 16777216, unat w div 65536 mod 256, unat w div 256 mod 256, unat w mod 256]"

definition IP_String :: "32 word \<Rightarrow> string" where
  "IP_String w =
     (case IP_bytes w of
        [a, b, c, d] \<Rightarrow> uitoa a @ ''.'' @ uitoa b @ ''.'' @ uitoa c @ ''.'' @ uitoa d
      | _ \<Rightarrow> [])"

text \<open>
  \<open>(*IPNet).String\<close>: \<open>"<nil>"\<close> for a nil pointer, else the address, a slash and the
  number of leading ones of the mask.
\<close>

definition IPNet_String :: "IPNet option \<Rightarrow> string" where
  "IPNet_String r =
     (case r of
        None \<Rightarrow> ''<nil>''
      | Some n \<Rightarrow> IP_String (IP n) @ ''/'' @ uitoa (Mask n))"

section \<open>The allocation library \<open>cola/pkg/cidr\<close>\<close>

text \<open>
  \<open>Create\<close> calls \<open>cidr.FindAvailableCIDR\<close> and \<open>cidr.ContainsCIDR\<close> of the package
  \<open>github.com/massdriver-cloud/cola/pkg/cidr\<close>, whose source is not among the
  repository's files. \<open>Create\<close> below takes both as parameters; the definitions of
  this section give them the behaviour the specification describes.
\<close>

datatype error = ErrNoAvailableCIDR | InvalidMaskSize | OtherError string

text \<open>
  Modelled from the spec: the derived values of an address range (spec section 3);
  the library's code for them is missing. \<open>size = 2^(32 - prefixLength)\<close>,
  \<open>firstAddress = base\<close>, \<open>lastAddress = base + size - 1\<close>.
\<close>

definition block_size :: "IPNet \<Rightarrow> nat" where
  "block_size r = 2 ^ (32 - Mask r)"

definition firstAddress :: "IPNet \<Rightarrow> nat" where
  "firstAddress r = unat (IP r)"

definition lastAddress :: "IPNet \<Rightarrow> nat" where
  "lastAddress r = firstAddress r + block_size r - 1"

text \<open>
  Modelled from the spec: \<open>cidr.ContainsCIDR\<close> is missing. Spec section 4.1:
  \<open>contains(outer, inner)\<close> is true iff \<open>inner.firstAddress >= outer.firstAddress\<close>
  and \<open>inner.lastAddress <= outer.lastAddress\<close>.
\<close>

definition ContainsCIDR :: "IPNet \<Rightarrow> IPNet \<Rightarrow> bool" where
  "ContainsCIDR outer inner =
     (firstAddress inner \<ge> firstAddress outer \<and> lastAddress inner \<le> lastAddress outer)"

text \<open>
  Modelled from the spec: the library's overlap test is missing. Spec section 4.1:
  \<open>overlaps(a, b)\<close> is true iff \<open>a.firstAddress <= b.lastAddress\<close> and
  \<open>b.firstAddress <= a.lastAddress\<close>.
\<close>

definition overlaps :: "IPNet \<Rightarrow> IPNet \<Rightarrow> bool" where
  "overlaps a b = (firstAddress a \<le> lastAddress b \<and> firstAddress b \<le> lastAddress a)"

text \<open>
  Modelled from the spec: the search loop of \<open>cidr.FindAvailableCIDR\<close> is missing.
  Spec section 4.2, steps 3 to 5: walk the candidate blocks of width \<open>step\<close> in
  ascending address order from the parent's first address; return the first candidate
  that overlaps no used range; fail with \<open>NoAvailableCidr\<close> when every candidate
  conflicts. The first argument counts the candidates still to try, \<open>b\<close> is the base
  of the current one.
\<close>

fun walk :: "nat \<Rightarrow> 32 word \<Rightarrow> nat \<Rightarrow> IPNet list \<Rightarrow> error + IPNet" where
  "walk 0 b target used = Inl ErrNoAvailableCIDR"
| "walk (Suc k) b target used =
     (let candidate = \<lparr>IP = b, Mask = target\<rparr> in
      if \<not> list_ex (overlaps candidate) used then Inr candidate
      else walk k (b + word_of_nat (2 ^ (32 - target))) target used)"

text \<open>
  Modelled from the spec: \<open>cidr.FindAvailableCIDR\<close> is missing. Spec section 4.2,
  steps 1 and 2: \<open>targetPrefixLength\<close> must be at least \<open>parent.prefixLength\<close>,
  otherwise \<open>InvalidMaskSize\<close>; \<open>step = 2^(32 - targetPrefixLength)\<close> and
  \<open>candidateCount = parent.size / step\<close>.
\<close>

definition FindAvailableCidr :: "IPNet \<Rightarrow> nat \<Rightarrow> IPNet list \<Rightarrow> error + IPNet" where
  "FindAvailableCidr parent targetPrefixLength used =
     (if targetPrefixLength < Mask parent then Inl InvalidMaskSize
      else
        (let step = 2 ^ (32 - targetPrefixLength);
             candidateCount = block_size parent div step
         in walk candidateCount (IP parent) targetPrefixLength used))"

text \<open>
  Modelled from the spec: the candidate blocks of the search are not in the sources.
  Spec section 4.2, steps 2 and 3: candidate \<open>i\<close> is the block of the target size
  that starts \<open>i\<close> steps after the parent's first address, and there are
  \<open>parent.size / step\<close> of them.
\<close>

definition candidate :: "IPNet \<Rightarrow> nat \<Rightarrow> nat \<Rightarrow> IPNet" where
  "candidate parent target i =
     \<lparr>IP = IP parent + word_of_nat (i * 2 ^ (32 - target)), Mask = target\<rparr>"

definition candidateCount :: "IPNet \<Rightarrow> nat \<Rightarrow> nat" where
  "candidateCount parent target = block_size parent div 2 ^ (32 - target)"

text \<open>
  \<open>Create\<close> hands the library a \<open>*net.IPMask\<close>, not a prefix length. \<open>IPMask_ones\<close>
  is the first result of Go's \<open>IPMask.Size\<close>: the number of leading ones, and 0 for a nil
  mask.
\<close>

definition IPMask_ones :: "nat option \<Rightarrow> nat" where
  "IPMask_ones m = (case m of None \<Rightarrow> 0 | Some n \<Rightarrow> n)"

definition FindAvailableCIDR :: "IPNet \<Rightarrow> nat option \<Rightarrow> IPNet list \<Rightarrow> error + IPNet" where
  "FindAvailableCIDR parent m used = FindAvailableCidr parent (IPMask_ones m) used"

section \<open>The resource: \<open>Create\<close>\<close>

text \<open>
  The plugin framework is outside the repository. What it hands to \<open>Create\<close> is kept as
  data: the diagnostics and the model that \<open>req.Plan.Get\<close> yields, and for each list
  attribute the diagnostics and the strings that \<open>ElementsAs\<close> yields. A diagnostic
  keeps its severity and its summary; the detail text (a formatted error message) is
  left out.
\<close>

datatype diagnostic = ErrorDiagnostic string | WarningDiagnostic string

fun isError :: "diagnostic \<Rightarrow> bool" where
  "isError (ErrorDiagnostic s) = True"
| "isError (WarningDiagnostic s) = False"

definition HasError :: "diagnostic list \<Rightarrow> bool" where
  "HasError ds = list_ex isError ds"

record tf_list =
  ElementsAs_diags :: "diagnostic list"
  ElementsAs_strings :: "string list"

text \<open>
  \<open>AvailableCidrResourceModel\<close>. The file holds two variants of the resource: one names
  the list of ranges to search \<open>FromCidrs\<close> (\<open>from_cidrs\<close>), the other \<open>ParentCidrs\<close>
  (\<open>parent_cidrs\<close>); the field \<open>FromCidrs\<close> stands for both. A \<open>types.String\<close> is
  \<open>None\<close> when null or unknown.
\<close>

record AvailableCidrResourceModel =
  Id_attr :: "string option"
  Keepers :: "(string \<times> string) list option"
  FromCidrs :: tf_list
  UsedCidrs :: tf_list
  Mask_attr :: int
  Result :: "string option"

record CreateRequest =
  Plan_Get_diags :: "diagnostic list"
  Plan_Get_data :: AvailableCidrResourceModel

record CreateResponse =
  Diagnostics :: "diagnostic list"
  State :: "AvailableCidrResourceModel option"

definition Append :: "diagnostic list \<Rightarrow> CreateResponse \<Rightarrow> CreateResponse" where
  "Append ds resp = resp\<lparr>Diagnostics := Diagnostics resp @ ds\<rparr>"

definition AddError :: "string \<Rightarrow> CreateResponse \<Rightarrow> CreateResponse" where
  "AddError summary resp = Append [ErrorDiagnostic summary] resp"

text \<open>The loop that parses \<open>used_cidrs\<close> (both variants): the first parse error ends it.\<close>

fun parse_used :: "string list \<Rightarrow> ParseError + IPNet list" where
  "parse_used [] = Inr []"
| "parse_used (used # rest) =
     (case ParseCIDR used of
        Inl parseErr \<Rightarrow> Inl parseErr
      | Inr usedCidr \<Rightarrow>
          (case parse_used rest of
             Inl parseErr \<Rightarrow> Inl parseErr
           | Inr usedCidrs \<Rightarrow> Inr (usedCidr # usedCidrs)))"

text \<open>
  What a search loop ends with: a parse error of a range to search, an error of the
  library that is not \<open>ErrNoAvailableCIDR\<close> (second variant only), or the last values of
  the variables \<open>result\<close> and \<open>findErr\<close>.
\<close>

datatype loop_end =
    ParseFailed ParseError
  | FindFailed error
  | Done "IPNet option" "error option"

text \<open>
  The search loop of the \<open>from_cidrs\<close> variant: every range is searched with the whole
  used list, and the loop breaks at the first result.
\<close>

fun from_loop ::
  "(IPNet \<Rightarrow> nat option \<Rightarrow> IPNet list \<Rightarrow> error + IPNet) \<Rightarrow> nat option \<Rightarrow> IPNet list \<Rightarrow>
   string list \<Rightarrow> IPNet option \<Rightarrow> error option \<Rightarrow> loop_end" where
  "from_loop findAvailable msk usedCidrs [] result findErr = Done result findErr"
| "from_loop findAvailable msk usedCidrs (from # rest) result findErr =
     (case ParseCIDR from of
        Inl parseErr \<Rightarrow> ParseFailed parseErr
      | Inr fromCidr \<Rightarrow>
          (case findAvailable fromCidr msk usedCidrs of
             Inr r \<Rightarrow> Done (Some r) None
           | Inl e \<Rightarrow> from_loop findAvailable msk usedCidrs rest None (Some e)))"

text \<open>
  The search loop of the \<open>parent_cidrs\<close> variant: the used list is filtered to the
  ranges contained in the parent, an error other than \<open>ErrNoAvailableCIDR\<close> ends
  \<open>Create\<close>, and the loop has no break: it goes on to the next parent after a result.
\<close>

fun parent_loop ::
  "(IPNet \<Rightarrow> IPNet \<Rightarrow> bool) \<Rightarrow> (IPNet \<Rightarrow> nat option \<Rightarrow> IPNet list \<Rightarrow> error + IPNet) \<Rightarrow>
   nat option \<Rightarrow> IPNet list \<Rightarrow> string list \<Rightarrow> IPNet option \<Rightarrow> error option \<Rightarrow> loop_end" where
  "parent_loop contains findAvailable msk usedCidrs [] result findErr = Done result findErr"
| "parent_loop contains findAvailable msk usedCidrs (parent # rest) result findErr =
     (case ParseCIDR parent of
        Inl parseErr \<Rightarrow> ParseFailed parseErr
      | Inr parentCidr \<Rightarrow>
          (let containedCidrs = filter (contains parentCidr) usedCidrs in
           case findAvailable parentCidr msk containedCidrs of
             Inr r \<Rightarrow> parent_loop contains findAvailable msk usedCidrs rest (Some r) None
           | Inl e \<Rightarrow>
               if e \<noteq> ErrNoAvailableCIDR then FindFailed e
               else parent_loop contains findAvailable msk usedCidrs rest None (Some e)))"

text \<open>
  What follows the loop in both variants: an error when \<open>findErr\<close> is set, otherwise
  \<open>Id\<close> and \<open>Result\<close> become \<open>result.String()\<close> and the model is saved as the state.
\<close>

definition finish ::
  "string \<Rightarrow> AvailableCidrResourceModel \<Rightarrow> CreateResponse \<Rightarrow> loop_end \<Rightarrow> CreateResponse" where
  "finish parse_summary data resp e =
     (case e of
        ParseFailed parseErr \<Rightarrow> AddError parse_summary resp
      | FindFailed findErr \<Rightarrow> AddError ''Error while finding available CIDR'' resp
      | Done result findErr \<Rightarrow>
          (case findErr of
             Some err \<Rightarrow> AddError ''No available CIDR found'' resp
           | None \<Rightarrow>
               resp\<lparr>State :=
                 Some (data\<lparr>Id_attr := Some (IPNet_String result),
                            Result := Some (IPNet_String result)\<rparr>)\<rparr>))"

text \<open>
  The part both variants share up to the search loop: read the plan, build the mask,
  convert both lists, parse the used ranges. \<open>search\<close> is the variant's loop.
\<close>

definition Create_with ::
  "string \<Rightarrow> (nat option \<Rightarrow> IPNet list \<Rightarrow> string list \<Rightarrow> loop_end) \<Rightarrow>
   CreateRequest \<Rightarrow> CreateResponse \<Rightarrow> CreateResponse" where
  "Create_with parse_summary search req resp =
     (let resp1 = Append (Plan_Get_diags req) resp; data = Plan_Get_data req in
      if HasError (Diagnostics resp1) then resp1
      else
        (let msk = CIDRMask (Mask_attr data) 32;
             resp2 = Append (ElementsAs_diags (FromCidrs data)) resp1 in
         if HasError (Diagnostics resp2) then resp2
         else
           (let resp3 = Append (ElementsAs_diags (UsedCidrs data)) resp2 in
            if HasError (Diagnostics resp3) then resp3
            else
              (case parse_used (ElementsAs_strings (UsedCidrs data)) of
                 Inl parseErr \<Rightarrow> AddError ''Error parsing used_cidrs'' resp3
               | Inr usedCidrs \<Rightarrow>
                   finish parse_summary data resp3
                     (search msk usedCidrs (ElementsAs_strings (FromCidrs data)))))))"

text \<open>\<open>Create\<close> of the \<open>from_cidrs\<close> variant.\<close>

definition Create_from_cidrs ::
  "(IPNet \<Rightarrow> nat option \<Rightarrow> IPNet list \<Rightarrow> error + IPNet) \<Rightarrow>
   CreateRequest \<Rightarrow> CreateResponse \<Rightarrow> CreateResponse" where
  "Create_from_cidrs findAvailable req resp =
     Create_with ''Error parsing from_cidrs''
       (\<lambda>msk usedCidrs froms. from_loop findAvailable msk usedCidrs froms None None) req resp"

text \<open>\<open>Create\<close> of the \<open>parent_cidrs\<close> variant.\<close>

definition Create_parent_cidrs ::
  "(IPNet \<Rightarrow> IPNet \<Rightarrow> bool) \<Rightarrow> (IPNet \<Rightarrow> nat option \<Rightarrow> IPNet list \<Rightarrow> error + IPNet) \<Rightarrow>
   CreateRequest \<Rightarrow> CreateResponse \<Rightarrow> CreateResponse" where
  "Create_parent_cidrs contains findAvailable req resp =
     Create_with ''Error parsing parent_cidrs''
       (\<lambda>msk usedCidrs parents. parent_loop contains findAvailable msk usedCidrs parents None None)
       req resp"

text \<open>
  \<open>testAccExampleResourceConfig(from, used, mask)\<close> of the acceptance test: the
  configuration with these three attributes, here as the request whose plan holds them.
\<close>

definition testAccExampleResourceConfig ::
  "string list \<Rightarrow> string list \<Rightarrow> int \<Rightarrow> CreateRequest" where
  "testAccExampleResourceConfig froms useds m =
     \<lparr>Plan_Get_diags = [],
      Plan_Get_data =
        \<lparr>Id_attr = None, Keepers = None,
         FromCidrs = \<lparr>ElementsAs_diags = [], ElementsAs_strings = froms\<rparr>,
         UsedCidrs = \<lparr>ElementsAs_diags = [], ElementsAs_strings = useds\<rparr>,
         Mask_attr = m, Result = None\<rparr>\<rparr>"

text \<open>The response of a resource that has no state yet.\<close>

definition new_response :: CreateResponse where
  "new_response = \<lparr>Diagnostics = [], State = None\<rparr>"

section \<open>Texts: what a pattern accepts\<close>

text \<open>The set of texts a pattern matches as a whole.\<close>

fun lang :: "regexp \<Rightarrow> string set" where
  "lang Eps = {[]}"
| "lang (Lit c) = {[c]}"
| "lang (Range a b) =
     {[x] |x. (of_char a :: nat) \<le> of_char x \<and> (of_char x :: nat) \<le> of_char b}"
| "lang (Cat r1 r2) = {p @ q |p q. p \<in> lang r1 \<and> q \<in> lang r2}"
| "lang (Alt r1 r2) = lang r1 \<union> lang r2"

text \<open>The number a text of decimal digits denotes.\<close>

fun decimal :: "string \<Rightarrow> nat" where
  "decimal s = foldl (\<lambda>n c. n * 10 + (of_char c - 48)) 0 s"

text \<open>
  A text of the form \<open>a.b.c.d/p\<close> whose four address fields satisfy \<open>octet\<close> and
  whose prefix field satisfies \<open>pfx\<close>.
\<close>

definition dotted_quad_with_prefix ::
  "(string \<Rightarrow> bool) \<Rightarrow> (string \<Rightarrow> bool) \<Rightarrow> string \<Rightarrow> bool" where
  "dotted_quad_with_prefix octet pfx s =
     (\<exists>a b c d p. s = a @ ''.'' @ b @ ''.'' @ c @ ''.'' @ d @ ''/'' @ p \<and>
        octet a \<and> octet b \<and> octet c \<and> octet d \<and> pfx p)"

text \<open>
  The fields as the specification words them: an octet is a decimal number from 0 to
  255, a prefix length a decimal number from 0 to 32.
\<close>

definition spec_octet_text :: "string \<Rightarrow> bool" where
  "spec_octet_text t = (t \<noteq> [] \<and> list_all isDigit t \<and> decimal t \<le> 255)"

definition spec_prefix_text :: "string \<Rightarrow> bool" where
  "spec_prefix_text t = (t \<noteq> [] \<and> list_all isDigit t \<and> decimal t \<le> 32)"

text \<open>
  The fields as the pattern has them: an octet is one or two digits, or three digits
  that denote 100 to 255; a prefix length is one or two digits, the first not 0, that
  denote at most 32.
\<close>

definition octet_text :: "string \<Rightarrow> bool" where
  "octet_text t =
     (list_all isDigit t \<and>
      (length t = 1 \<or> length t = 2 \<or>
       (length t = 3 \<and> 100 \<le> decimal t \<and> decimal t \<le> 255)))"

definition prefix_text :: "string \<Rightarrow> bool" where
  "prefix_text t =
     (list_all isDigit t \<and> (length t = 1 \<or> length t = 2) \<and> hd t \<noteq> CHR ''0'' \<and>
      decimal t \<le> 32)"

section \<open>Evaluating the definitions on concrete inputs\<close>

lemma parseIPv4_loop_4:
  "parseIPv4_loop 4 s p = parseIPv4_loop (Suc (Suc (Suc (Suc 0)))) s p"
  by (simp add: eval_nat_numeral)

lemma walk_pos:
  "0 < k \<Longrightarrow> walk k b target used =
     (let candidate = \<lparr>IP = b, Mask = target\<rparr> in
      if \<not> list_ex (overlaps candidate) used then Inr candidate
      else walk (k - 1) (b + word_of_nat (2 ^ (32 - target))) target used)"
  using walk.simps(2) [of "k - 1" b target used] by simp

lemma char_of_digit:
  "char_of (48::nat) = CHR ''0''" "char_of (49::nat) = CHR ''1''"
  "char_of (50::nat) = CHR ''2''" "char_of (51::nat) = CHR ''3''"
  "char_of (52::nat) = CHR ''4''" "char_of (53::nat) = CHR ''5''"
  "char_of (54::nat) = CHR ''6''" "char_of (55::nat) = CHR ''7''"
  "char_of (56::nat) = CHR ''8''" "char_of (57::nat) = CHR ''9''"
  by (simp_all add: char_of_def bit_Suc_0_iff)

lemmas eval_match = valid_cidr_text_def Match_def cidr_pattern_def octet_pattern_def
  prefix_pattern_def digit_class_def numeral_2_eq_2 numeral_3_eq_3

lemmas eval_parse = ParseCIDR_def parseIPv4_def parseIPv4_loop_4 dtoi_def isDigit_def
  big_def Let_def IP_Mask_def mask_eq_exp_minus_1

lemmas eval_find = FindAvailableCIDR_def FindAvailableCidr_def IPMask_ones_def CIDRMask_def
  block_size_def walk_pos overlaps_def firstAddress_def lastAddress_def ContainsCIDR_def

lemmas eval_string = IPNet_String_def IP_String_def IP_bytes_def char_of_digit uitoa.simps

lemmas eval_create = Create_from_cidrs_def Create_parent_cidrs_def Create_with_def finish_def
  AddError_def Append_def HasError_def testAccExampleResourceConfig_def new_response_def

section \<open>\<open>Create\<close>: which paths write the state\<close>

lemma State_Append: "State (Append ds resp) = State resp"
  by (simp add: Append_def)

lemma State_AddError: "State (AddError s resp) = State resp"
  by (simp add: AddError_def Append_def)

lemma HasError_AddError: "HasError (Diagnostics (AddError s resp))"
  by (simp add: AddError_def Append_def HasError_def)

text \<open>
  A search loop that ends without an error either never ran or ends with a block that
  the library returned for one of the ranges.
\<close>

lemma from_loop_Done:
  "from_loop f m us froms res err = Done result None \<Longrightarrow>
     (froms = [] \<and> result = res \<and> err = None) \<or>
     (\<exists>frm fromCidr r. frm \<in> set froms \<and> ParseCIDR frm = Inr fromCidr \<and>
         f fromCidr m us = Inr r \<and> result = Some r)"
proof (induction froms arbitrary: res err)
  case Nil
  then show ?case by simp
next
  case (Cons a froms)
  show ?case
  proof (cases "ParseCIDR a")
    case (Inl e)
    with Cons.prems show ?thesis by simp
  next
    case (Inr fromCidr)
    show ?thesis
    proof (cases "f fromCidr m us")
      case (Inl e)
      with Inr Cons.prems have "from_loop f m us froms None (Some e) = Done result None"
        by simp
      from Cons.IH [OF this] show ?thesis by auto
    next
      case r: (Inr r)
      with Inr Cons.prems have "result = Some r" by simp
      with Inr r show ?thesis by auto
    qed
  qed
qed

lemma parent_loop_Done:
  "parent_loop c f m us ps res err = Done result None \<Longrightarrow>
     (ps = [] \<and> result = res \<and> err = None) \<or>
     (\<exists>parent parentCidr r. parent \<in> set ps \<and> ParseCIDR parent = Inr parentCidr \<and>
         f parentCidr m (filter (c parentCidr) us) = Inr r \<and> result = Some r)"
proof (induction ps arbitrary: res err)
  case Nil
  then show ?case by simp
next
  case (Cons a ps)
  show ?case
  proof (cases "ParseCIDR a")
    case (Inl e)
    with Cons.prems show ?thesis by simp
  next
    case (Inr parentCidr)
    show ?thesis
    proof (cases "f parentCidr m (filter (c parentCidr) us)")
      case (Inl e)
      with Inr Cons.prems have "parent_loop c f m us ps None (Some e) = Done result None"
        by (simp split: if_splits)
      from Cons.IH [OF this] show ?thesis by auto
    next
      case r: (Inr r)
      with Inr Cons.prems have "parent_loop c f m us ps (Some r) None = Done result None"
        by simp
      from Cons.IH [OF this] Inr r show ?thesis by auto
    qed
  qed
qed

text \<open>
  After the loop: either an error is added and the state is as before, or the loop
  ended without an error and the state is the plan with \<open>Id\<close> and \<open>Result\<close> set.
\<close>

lemma finish_cases:
  "(HasError (Diagnostics (finish ps data resp e)) \<and>
      State (finish ps data resp e) = State resp) \<or>
   (\<exists>result. e = Done result None \<and>
      Diagnostics (finish ps data resp e) = Diagnostics resp \<and>
      State (finish ps data resp e) =
        Some (data\<lparr>Id_attr := Some (IPNet_String result),
                   Result := Some (IPNet_String result)\<rparr>))"
  by (auto simp: finish_def State_AddError HasError_AddError
      split: loop_end.splits option.splits)

lemma Create_with_cases:
  "(HasError (Diagnostics (Create_with ps search req resp)) \<and>
      State (Create_with ps search req resp) = State resp) \<or>
   (\<not> HasError (Diagnostics (Create_with ps search req resp)) \<and>
    (\<exists>usedCidrs result.
       parse_used (ElementsAs_strings (UsedCidrs (Plan_Get_data req))) = Inr usedCidrs \<and>
       search (CIDRMask (Mask_attr (Plan_Get_data req)) 32) usedCidrs
          (ElementsAs_strings (FromCidrs (Plan_Get_data req))) = Done result None \<and>
       State (Create_with ps search req resp) =
         Some ((Plan_Get_data req)\<lparr>Id_attr := Some (IPNet_String result),
                                    Result := Some (IPNet_String result)\<rparr>)))"
proof -
  let ?data = "Plan_Get_data req"
  let ?r1 = "Append (Plan_Get_diags req) resp"
  let ?r2 = "Append (ElementsAs_diags (FromCidrs ?data)) ?r1"
  let ?r3 = "Append (ElementsAs_diags (UsedCidrs ?data)) ?r2"
  show ?thesis
  proof (cases "HasError (Diagnostics ?r1) \<or> HasError (Diagnostics ?r2) \<or>
      HasError (Diagnostics ?r3)")
    case True
    then show ?thesis
      by (auto simp: Create_with_def Let_def State_Append)
  next
    case ok: False
    show ?thesis
    proof (cases "parse_used (ElementsAs_strings (UsedCidrs ?data))")
      case (Inl e)
      with ok show ?thesis
        by (simp add: Create_with_def Let_def State_Append State_AddError HasError_AddError)
    next
      case (Inr usedCidrs)
      let ?e = "search (CIDRMask (Mask_attr ?data) 32) usedCidrs
          (ElementsAs_strings (FromCidrs ?data))"
      have eq: "Create_with ps search req resp = finish ps ?data ?r3 ?e"
        using ok Inr by (simp add: Create_with_def Let_def)
      from finish_cases [of ps ?data ?r3 ?e] show ?thesis
        using ok Inr unfolding eq by (auto simp: State_Append)
    qed
  qed
qed

text \<open>
  C9. \<open>Create\<close> is atomic with respect to errors, in both variants: whenever the
  returned diagnostics hold an error, the state is the one \<open>Create\<close> was given. The state
  is written only on the path that reports no error; there, for a non-empty list of
  ranges to search (the schema's \<open>SizeAtLeast(1)\<close>), the library returned a block for
  one of the ranges and \<open>Id\<close> and \<open>Result\<close> are its text.
\<close>

theorem Create_error_keeps_state:
  "(HasError (Diagnostics (Create_from_cidrs f req resp)) \<longrightarrow>
      State (Create_from_cidrs f req resp) = State resp) \<and>
   (HasError (Diagnostics (Create_parent_cidrs c f req resp)) \<longrightarrow>
      State (Create_parent_cidrs c f req resp) = State resp) \<and>
   (State (Create_from_cidrs f req resp) \<noteq> State resp \<and>
    ElementsAs_strings (FromCidrs (Plan_Get_data req)) \<noteq> [] \<longrightarrow>
      \<not> HasError (Diagnostics (Create_from_cidrs f req resp)) \<and>
      (\<exists>frm fromCidr usedCidrs r.
         frm \<in> set (ElementsAs_strings (FromCidrs (Plan_Get_data req))) \<and>
         ParseCIDR frm = Inr fromCidr \<and>
         f fromCidr (CIDRMask (Mask_attr (Plan_Get_data req)) 32) usedCidrs = Inr r \<and>
         State (Create_from_cidrs f req resp) =
           Some ((Plan_Get_data req)\<lparr>Id_attr := Some (IPNet_String (Some r)),
                                      Result := Some (IPNet_String (Some r))\<rparr>))) \<and>
   (State (Create_parent_cidrs c f req resp) \<noteq> State resp \<and>
    ElementsAs_strings (FromCidrs (Plan_Get_data req)) \<noteq> [] \<longrightarrow>
      \<not> HasError (Diagnostics (Create_parent_cidrs c f req resp)) \<and>
      (\<exists>parent parentCidr usedCidrs r.
         parent \<in> set (ElementsAs_strings (FromCidrs (Plan_Get_data req))) \<and>
         ParseCIDR parent = Inr parentCidr \<and>
         f parentCidr (CIDRMask (Mask_attr (Plan_Get_data req)) 32) usedCidrs = Inr r \<and>
         State (Create_parent_cidrs c f req resp) =
           Some ((Plan_Get_data req)\<lparr>Id_attr := Some (IPNet_String (Some r)),
                                      Result := Some (IPNet_String (Some r))\<rparr>)))"
proof -
  let ?froms = "ElementsAs_strings (FromCidrs (Plan_Get_data req))"
  let ?m = "CIDRMask (Mask_attr (Plan_Get_data req)) 32"
  let ?F = "\<lambda>msk usedCidrs froms. from_loop f msk usedCidrs froms None None"
  let ?P = "\<lambda>msk usedCidrs parents. parent_loop c f msk usedCidrs parents None None"
  note cf = Create_with_cases [of "''Error parsing from_cidrs''" ?F req resp,
      folded Create_from_cidrs_def]
  note cp = Create_with_cases [of "''Error parsing parent_cidrs''" ?P req resp,
      folded Create_parent_cidrs_def]
  have a: "HasError (Diagnostics (Create_from_cidrs f req resp)) \<longrightarrow>
      State (Create_from_cidrs f req resp) = State resp"
    using cf by blast
  have b: "HasError (Diagnostics (Create_parent_cidrs c f req resp)) \<longrightarrow>
      State (Create_parent_cidrs c f req resp) = State resp"
    using cp by blast
  have c: "State (Create_from_cidrs f req resp) \<noteq> State resp \<and> ?froms \<noteq> [] \<longrightarrow>
      \<not> HasError (Diagnostics (Create_from_cidrs f req resp)) \<and>
      (\<exists>frm fromCidr usedCidrs r.
         frm \<in> set ?froms \<and> ParseCIDR frm = Inr fromCidr \<and>
         f fromCidr ?m usedCidrs = Inr r \<and>
         State (Create_from_cidrs f req resp) =
           Some ((Plan_Get_data req)\<lparr>Id_attr := Some (IPNet_String (Some r)),
                                      Result := Some (IPNet_String (Some r))\<rparr>))"
  proof (intro impI, elim conjE)
    assume ch: "State (Create_from_cidrs f req resp) \<noteq> State resp" and ne: "?froms \<noteq> []"
    from cf ch obtain usedCidrs result where
      ok: "\<not> HasError (Diagnostics (Create_from_cidrs f req resp))" and
      lp: "from_loop f ?m usedCidrs ?froms None None = Done result None" and
      st: "State (Create_from_cidrs f req resp) =
         Some ((Plan_Get_data req)\<lparr>Id_attr := Some (IPNet_String result),
                                    Result := Some (IPNet_String result)\<rparr>)"
      by blast
    from from_loop_Done [OF lp] ne obtain frm fromCidr r where
      "frm \<in> set ?froms" "ParseCIDR frm = Inr fromCidr"
      "f fromCidr ?m usedCidrs = Inr r" "result = Some r"
      by blast
    with ok st show "\<not> HasError (Diagnostics (Create_from_cidrs f req resp)) \<and>
      (\<exists>frm fromCidr usedCidrs r.
         frm \<in> set ?froms \<and> ParseCIDR frm = Inr fromCidr \<and>
         f fromCidr ?m usedCidrs = Inr r \<and>
         State (Create_from_cidrs f req resp) =
           Some ((Plan_Get_data req)\<lparr>Id_attr := Some (IPNet_String (Some r)),
                                      Result := Some (IPNet_String (Some r))\<rparr>))"
      by blast
  qed
  have d: "State (Create_parent_cidrs c f req resp) \<noteq> State resp \<and> ?froms \<noteq> [] \<longrightarrow>
      \<not> HasError (Diagnostics (Create_parent_cidrs c f req resp)) \<and>
      (\<exists>parent parentCidr usedCidrs r.
         parent \<in> set ?froms \<and> ParseCIDR parent = Inr parentCidr \<and>
         f parentCidr ?m usedCidrs = Inr r \<and>
         State (Create_parent_cidrs c f req resp) =
           Some ((Plan_Get_data req)\<lparr>Id_attr := Some (IPNet_String (Some r)),
                                      Result := Some (IPNet_String (Some r))\<rparr>))"
  proof (intro impI, elim conjE)
    assume ch: "State (Create_parent_cidrs c f req resp) \<noteq> State resp"
      and ne: "?froms \<noteq> []"
    from cp ch obtain usedCidrs result where
      ok: "\<not> HasError (Diagnostics (Create_parent_cidrs c f req resp))" and
      lp: "parent_loop c f ?m usedCidrs ?froms None None = Done result None" and
      st: "State (Create_parent_cidrs c f req resp) =
         Some ((Plan_Get_data req)\<lparr>Id_attr := Some (IPNet_String result),
                                    Result := Some (IPNet_String result)\<rparr>)"
      by blast
    from parent_loop_Done [OF lp] ne obtain parent parentCidr r where
      "parent \<in> set ?froms" "ParseCIDR parent = Inr parentCidr"
      "f parentCidr ?m (filter (c parentCidr) usedCidrs) = Inr r" "result = Some r"
      by blast
    with ok st show "\<not> HasError (Diagnostics (Create_parent_cidrs c f req resp)) \<and>
      (\<exists>parent parentCidr usedCidrs r.
         parent \<in> set ?froms \<and> ParseCIDR parent = Inr parentCidr \<and>
         f parentCidr ?m usedCidrs = Inr r \<and>
         State (Create_parent_cidrs c f req resp) =
           Some ((Plan_Get_data req)\<lparr>Id_attr := Some (IPNet_String (Some r)),
                                      Result := Some (IPNet_String (Some r))\<rparr>))"
      by blast
  qed
  from a b c d show ?thesis by blast
qed

theorem Create_error_keeps_state_witness:
  "HasError (Diagnostics (Create_from_cidrs FindAvailableCIDR
      (testAccExampleResourceConfig [''10.1.0.0/16''] [''10.1.0/24''] 24) new_response)) \<and>
   State (Create_from_cidrs FindAvailableCIDR
      (testAccExampleResourceConfig [''10.1.0.0/16''] [''10.1.0/24''] 24) new_response) =
     State new_response \<and>
   HasError (Diagnostics (Create_parent_cidrs ContainsCIDR FindAvailableCIDR
      (testAccExampleResourceConfig [''10.1.0.0/16''] [''10.1.0/24''] 24) new_response)) \<and>
   State (Create_parent_cidrs ContainsCIDR FindAvailableCIDR
      (testAccExampleResourceConfig [''10.1.0.0/16''] [''10.1.0/24''] 24) new_response) =
     State new_response \<and>
   State (Create_from_cidrs FindAvailableCIDR
      (testAccExampleResourceConfig [''10.1.0.0/16''] [''10.1.0.0/24''] 24) new_response) \<noteq>
     State new_response \<and>
   \<not> HasError (Diagnostics (Create_from_cidrs FindAvailableCIDR
      (testAccExampleResourceConfig [''10.1.0.0/16''] [''10.1.0.0/24''] 24) new_response)) \<and>
   State (Create_parent_cidrs ContainsCIDR FindAvailableCIDR
      (testAccExampleResourceConfig [''10.1.0.0/16''] [''10.1.0.0/24''] 24) new_response) \<noteq>
     State new_response \<and>
   \<not> HasError (Diagnostics (Create_parent_cidrs ContainsCIDR FindAvailableCIDR
      (testAccExampleResourceConfig [''10.1.0.0/16''] [''10.1.0.0/24''] 24) new_response))"
proof -
  let ?bad = "testAccExampleResourceConfig [''10.1.0.0/16''] [''10.1.0/24''] 24"
  let ?good = "testAccExampleResourceConfig [''10.1.0.0/16''] [''10.1.0.0/24''] 24"
  have e1: "HasError (Diagnostics (Create_from_cidrs FindAvailableCIDR ?bad new_response))"
    by (simp add: eval_create eval_parse)
  have e2: "HasError (Diagnostics
      (Create_parent_cidrs ContainsCIDR FindAvailableCIDR ?bad new_response))"
    by (simp add: eval_create eval_parse)
  have g1: "State (Create_from_cidrs FindAvailableCIDR ?good new_response) \<noteq>
      State new_response"
    by (simp add: eval_create eval_parse eval_find)
  have g2: "State (Create_parent_cidrs ContainsCIDR FindAvailableCIDR ?good new_response) \<noteq>
      State new_response"
    by (simp add: eval_create eval_parse eval_find)
  have ne: "ElementsAs_strings (FromCidrs (Plan_Get_data ?good)) \<noteq> []"
    by (simp add: testAccExampleResourceConfig_def)
  from e1 e2 g1 g2 ne
    Create_error_keeps_state [of FindAvailableCIDR ?bad new_response ContainsCIDR]
    Create_error_keeps_state [of FindAvailableCIDR ?good new_response ContainsCIDR]
  show ?thesis by blast
qed

section \<open>The pattern and the texts it accepts\<close>

lemma match_prefix_lang: "set (match_prefix r s) = {t. \<exists>p \<in> lang r. s = p @ t}"
proof (induction r arbitrary: s)
  case Eps
  show ?case by simp
next
  case (Lit c)
  show ?case by (cases s) auto
next
  case (Range a b)
  show ?case by (cases s) auto
next
  case (Cat r1 r2)
  show ?case
    by (auto simp: Cat.IH) (metis append.assoc)+
next
  case (Alt r1 r2)
  show ?case by (auto simp: Alt.IH)
qed

lemma Match_lang: "Match r s \<longleftrightarrow> s \<in> lang r"
  by (simp add: Match_def match_prefix_lang)

lemma char_eq_code: "x = c \<longleftrightarrow> (of_char x :: nat) = of_char c"
  by simp

lemma lang_digit: "t \<in> lang digit_class \<longleftrightarrow> (\<exists>c. t = [c] \<and> isDigit c)"
  by (auto simp: digit_class_def isDigit_def)


lemma lang_Range: "t \<in> lang (Range a b) \<longleftrightarrow>
    (\<exists>x. t = [x] \<and> (of_char a :: nat) \<le> of_char x \<and> (of_char x :: nat) \<le> of_char b)"
  by auto

lemma lang_Lit_Cat: "t \<in> lang (Cat (Lit c) r) \<longleftrightarrow> (\<exists>q. t = c # q \<and> q \<in> lang r)"
  by auto

lemma lang_Range_Cat: "t \<in> lang (Cat (Range a b) r) \<longleftrightarrow>
    (\<exists>x q. t = x # q \<and> (of_char a :: nat) \<le> of_char x \<and> (of_char x :: nat) \<le> of_char b \<and>
       q \<in> lang r)" (is "?l \<longleftrightarrow> ?r")
proof
  assume ?l
  then obtain p q where "t = p @ q" "p \<in> lang (Range a b)" "q \<in> lang r"
    by auto
  then show ?r by auto
next
  assume ?r
  then obtain x q where "t = [x] @ q" "[x] \<in> lang (Range a b)" "q \<in> lang r"
    by auto
  then show ?l unfolding lang.simps(4) by blast
qed

lemma lang_Cat_Eps: "lang (Cat r Eps) = lang r"
  by auto

lemmas lang_eval = lang_Range lang_Lit_Cat lang_Range_Cat lang_Cat_Eps lang.simps(1,2,5) Un_iff


lemma list_upto_3_cases:
  obtains "t = []" | a where "t = [a]" | a b where "t = [a, b]" | a b c where "t = [a, b, c]"
    | a b c d u where "t = a # b # c # d # u"
  by (metis list.exhaust)

lemma char_is: "x = CHR ''0'' \<longleftrightarrow> (of_char x :: nat) = 48"
  "x = CHR ''1'' \<longleftrightarrow> (of_char x :: nat) = 49"
  "x = CHR ''2'' \<longleftrightarrow> (of_char x :: nat) = 50"
  "x = CHR ''3'' \<longleftrightarrow> (of_char x :: nat) = 51"
  "x = CHR ''5'' \<longleftrightarrow> (of_char x :: nat) = 53"
  using of_char_eq_iff [of x "CHR ''0''", where ?'a = nat]
    of_char_eq_iff [of x "CHR ''1''", where ?'a = nat]
    of_char_eq_iff [of x "CHR ''2''", where ?'a = nat]
    of_char_eq_iff [of x "CHR ''3''", where ?'a = nat]
    of_char_eq_iff [of x "CHR ''5''", where ?'a = nat]
  by simp_all

lemmas octet_unfold = octet_pattern_def digit_class_def numeral_2_eq_2 times.simps

lemma lang_octet: "t \<in> lang octet_pattern \<longleftrightarrow> octet_text t"
proof (cases t rule: list_upto_3_cases)
  case 1
  then show ?thesis
    unfolding octet_unfold by (simp only: lang_eval) (simp add: octet_text_def)
next
  case (2 a)
  then show ?thesis
    unfolding octet_unfold by (simp only: lang_eval) (simp add: octet_text_def isDigit_def)
next
  case (3 a b)
  then show ?thesis
    unfolding octet_unfold by (simp only: lang_eval) (simp add: octet_text_def isDigit_def)
next
  case (4 a b c)
  have "t \<in> lang octet_pattern \<longleftrightarrow>
      (a = CHR ''1'' \<and> isDigit b \<and> isDigit c) \<or>
      (a = CHR ''2'' \<and> isDigit b \<and> (of_char b :: nat) \<le> 52 \<and> isDigit c) \<or>
      (a = CHR ''2'' \<and> b = CHR ''5'' \<and> isDigit c \<and> (of_char c :: nat) \<le> 53)"
    unfolding octet_unfold 4 by (simp only: lang_eval) (auto simp: isDigit_def)
  also have "\<dots> \<longleftrightarrow> octet_text t"
    unfolding 4 octet_text_def isDigit_def char_is by (simp) arith
  finally show ?thesis .
next
  case (5 a b c d u)
  then show ?thesis
    unfolding octet_unfold by (simp only: lang_eval) (simp add: octet_text_def)
qed


lemma list_upto_2_cases:
  obtains "t = []" | a where "t = [a]" | a b where "t = [a, b]"
    | a b c u where "t = a # b # c # u"
  by (metis list.exhaust)

lemma lang_prefix: "t \<in> lang prefix_pattern \<longleftrightarrow> prefix_text t"
proof (cases t rule: list_upto_2_cases)
  case 1
  then show ?thesis
    unfolding prefix_pattern_def digit_class_def
    by (simp only: lang_eval) (simp add: prefix_text_def)
next
  case (2 a)
  have "t \<in> lang prefix_pattern \<longleftrightarrow> (49::nat) \<le> of_char a \<and> (of_char a :: nat) \<le> 57"
    unfolding prefix_pattern_def digit_class_def 2
    by (simp only: lang_eval) simp
  also have "\<dots> \<longleftrightarrow> prefix_text t"
    unfolding 2 prefix_text_def isDigit_def char_is by simp arith
  finally show ?thesis .
next
  case (3 a b)
  have "t \<in> lang prefix_pattern \<longleftrightarrow>
      ((49::nat) \<le> of_char a \<and> (of_char a :: nat) \<le> 50 \<and> isDigit b) \<or>
      (a = CHR ''3'' \<and> isDigit b \<and> (of_char b :: nat) \<le> 50)"
    unfolding prefix_pattern_def digit_class_def 3
    by (simp only: lang_eval) (auto simp: isDigit_def)
  also have "\<dots> \<longleftrightarrow> prefix_text t"
    unfolding 3 prefix_text_def isDigit_def char_is by simp arith
  finally show ?thesis .
next
  case (4 a b c u)
  then show ?thesis
    unfolding prefix_pattern_def digit_class_def
    by (simp only: lang_eval) (simp add: prefix_text_def)
qed

lemma lang_Cat_iff:
  "t \<in> lang (Cat r1 r2) \<longleftrightarrow> (\<exists>p q. t = p @ q \<and> p \<in> lang r1 \<and> q \<in> lang r2)"
  by auto

lemma lang_CatI: "p \<in> lang r1 \<Longrightarrow> q \<in> lang r2 \<Longrightarrow> p @ q \<in> lang (Cat r1 r2)"
  by auto

lemma lang_cidr: "t \<in> lang cidr_pattern \<longleftrightarrow> dotted_quad_with_prefix octet_text prefix_text t"
proof
  assume "t \<in> lang cidr_pattern"
  then show "dotted_quad_with_prefix octet_text prefix_text t"
    unfolding cidr_pattern_def numeral_3_eq_3 times.simps dotted_quad_with_prefix_def
    apply (simp only: lang_Lit_Cat lang_Cat_iff lang.simps(1) singleton_iff lang_octet
        lang_prefix)
    apply clarsimp
    apply blast
    done
next
  assume "dotted_quad_with_prefix octet_text prefix_text t"
  then obtain a b c d p where
    t: "t = a @ ''.'' @ b @ ''.'' @ c @ ''.'' @ d @ ''/'' @ p" and
    o: "octet_text a" "octet_text b" "octet_text c" "octet_text d" and p: "prefix_text p"
    unfolding dotted_quad_with_prefix_def by blast
  let ?dot = "Cat (Lit (CHR ''.'')) octet_pattern"
  have dot: "CHR ''.'' # x \<in> lang ?dot" if "octet_text x" for x
    using that by (simp only: lang_Lit_Cat lang_octet) simp
  have sl: "CHR ''/'' # p \<in> lang (Cat (Lit (CHR ''/'')) prefix_pattern)"
    using p by (simp only: lang_Lit_Cat lang_prefix) simp
  have "a @ (((CHR ''.'' # b) @ (CHR ''.'' # c) @ (CHR ''.'' # d) @ []) @ (CHR ''/'' # p))
      \<in> lang (Cat octet_pattern (Cat (Cat ?dot (Cat ?dot (Cat ?dot Eps)))
          (Cat (Lit (CHR ''/'')) prefix_pattern)))"
    by (intro lang_CatI dot sl o) (simp_all add: lang_octet o)
  then show "t \<in> lang cidr_pattern"
    unfolding cidr_pattern_def numeral_3_eq_3 times.simps t by simp
qed

text \<open>
  C7, amended. Validation accepts exactly the texts \<open>a.b.c.d/p\<close> in which each of
  \<open>a\<close>, \<open>b\<close>, \<open>c\<close>, \<open>d\<close> is one or two decimal digits, or three digits that
  denote 100 to 255, and \<open>p\<close> is one or two digits, the first not 0, that denote at
  most 32 (a prefix length from 1 to 32). Every other text is rejected.
\<close>

theorem validation_accepts_exactly:
  "valid_cidr_text s \<longleftrightarrow> dotted_quad_with_prefix octet_text prefix_text s"
  by (simp only: valid_cidr_text_def Match_lang lang_cidr)

text \<open>
  C7 as stated fails: \<open>10.0.0.0/0\<close> has four octets in 0 to 255 and a prefix length
  in 0 to 32, and validation rejects it.
\<close>

theorem prefix_zero_rejected:
  "dotted_quad_with_prefix spec_octet_text spec_prefix_text ''10.0.0.0/0'' \<and>
   \<not> valid_cidr_text ''10.0.0.0/0''"
proof
  have "''10.0.0.0/0'' = ''10'' @ ''.'' @ ''0'' @ ''.'' @ ''0'' @ ''.'' @ ''0'' @ ''/'' @ ''0''"
    by simp
  moreover have "spec_octet_text ''10''" "spec_octet_text ''0''" "spec_prefix_text ''0''"
    by (simp_all add: spec_octet_text_def spec_prefix_text_def isDigit_def)
  ultimately show "dotted_quad_with_prefix spec_octet_text spec_prefix_text ''10.0.0.0/0''"
    unfolding dotted_quad_with_prefix_def by blast
  show "\<not> valid_cidr_text ''10.0.0.0/0''"
    by (simp add: eval_match)
qed

section \<open>\<open>Create\<close>: what reaches the library, and which range decides\<close>

lemma parse_10_0_16: "ParseCIDR ''10.0.0.0/16'' = Inr \<lparr>IP = 167772160, Mask = 16\<rparr>"
  by (simp add: eval_parse)

lemma parse_10_1_16: "ParseCIDR ''10.1.0.0/16'' = Inr \<lparr>IP = 167837696, Mask = 16\<rparr>"
  by (simp add: eval_parse)

lemma parse_10_0_24: "ParseCIDR ''10.0.0.0/24'' = Inr \<lparr>IP = 167772160, Mask = 24\<rparr>"
  by (simp add: eval_parse)

lemma find_10_0_empty:
  "FindAvailableCIDR \<lparr>IP = 167772160, Mask = 16\<rparr> (Some 24) [] =
     Inr \<lparr>IP = 167772160, Mask = 24\<rparr>"
  by (simp add: eval_find)

lemma find_10_1_saturated:
  "FindAvailableCIDR \<lparr>IP = 167837696, Mask = 16\<rparr> (Some 24)
     [\<lparr>IP = 167837696, Mask = 16\<rparr>] = Inl ErrNoAvailableCIDR"
  by (simp add: eval_find)

text \<open>
  C1, at the input of the specification: parents \<open>10.0.0.0/16\<close> and \<open>10.1.0.0/16\<close>,
  one used range \<open>10.1.0.0/16\<close> that fills the second parent, mask 24. The
  \<open>parent_cidrs\<close> variant has no break in its loop: the second parent overwrites the
  block found in the first, and \<open>Create\<close> reports that no range is available. The
  \<open>from_cidrs\<close> variant breaks at the first result and stores \<open>10.0.0.0/24\<close>.
\<close>

theorem last_parent_decides:
  "Create_parent_cidrs ContainsCIDR FindAvailableCIDR
      (testAccExampleResourceConfig [''10.0.0.0/16'', ''10.1.0.0/16''] [''10.1.0.0/16''] 24)
      new_response =
     AddError ''No available CIDR found'' new_response \<and>
   map_option Result (State (Create_from_cidrs FindAvailableCIDR
      (testAccExampleResourceConfig [''10.0.0.0/16'', ''10.1.0.0/16''] [''10.1.0.0/16''] 24)
      new_response)) = Some (Some ''10.0.0.0/24'')"
proof -
  have c: "ContainsCIDR \<lparr>IP = 167837696, Mask = 16\<rparr> \<lparr>IP = 167837696, Mask = 16\<rparr>"
    "\<not> ContainsCIDR \<lparr>IP = 167772160, Mask = 16\<rparr> \<lparr>IP = 167837696, Mask = 16\<rparr>"
    by (simp_all add: eval_find)
  have u: "FindAvailableCIDR \<lparr>IP = 167772160, Mask = 16\<rparr> (Some 24)
      [\<lparr>IP = 167837696, Mask = 16\<rparr>] = Inr \<lparr>IP = 167772160, Mask = 24\<rparr>"
    by (simp add: eval_find)
  have s: "IPNet_String (Some \<lparr>IP = 167772160, Mask = 24\<rparr>) = ''10.0.0.0/24''"
    by (simp add: eval_string)
  have a: "Create_parent_cidrs ContainsCIDR FindAvailableCIDR
      (testAccExampleResourceConfig [''10.0.0.0/16'', ''10.1.0.0/16''] [''10.1.0.0/16''] 24)
      new_response = AddError ''No available CIDR found'' new_response"
    by (simp add: eval_create CIDRMask_def parse_10_0_16 parse_10_1_16 c
        find_10_0_empty find_10_1_saturated)
  have b: "map_option Result (State (Create_from_cidrs FindAvailableCIDR
      (testAccExampleResourceConfig [''10.0.0.0/16'', ''10.1.0.0/16''] [''10.1.0.0/16''] 24)
      new_response)) = Some (Some ''10.0.0.0/24'')"
    by (simp add: eval_create CIDRMask_def parse_10_0_16 parse_10_1_16 u s)
  from a b show ?thesis by simp
qed

text \<open>
  C10. The text \<open>01.2.3.4/16\<close> passes the validation pattern and \<open>ParseCIDR\<close> rejects
  it (an octet of two digits must not start with 0), so \<open>Create\<close> of either variant ends
  with a parse error on it, as a range to search and as a used range, whatever the
  library functions are.
\<close>

theorem validated_text_fails_to_parse:
  "valid_cidr_text ''01.2.3.4/16'' \<and>
   ParseCIDR ''01.2.3.4/16'' = Inl (ParseError ''CIDR address'' ''01.2.3.4/16'') \<and>
   Create_from_cidrs f (testAccExampleResourceConfig [''01.2.3.4/16''] [] 16) new_response =
     AddError ''Error parsing from_cidrs'' new_response \<and>
   Create_from_cidrs f (testAccExampleResourceConfig [''1.2.0.0/16''] [''01.2.3.4/16''] 16)
       new_response =
     AddError ''Error parsing used_cidrs'' new_response \<and>
   Create_parent_cidrs c f (testAccExampleResourceConfig [''01.2.3.4/16''] [] 16) new_response =
     AddError ''Error parsing parent_cidrs'' new_response \<and>
   Create_parent_cidrs c f (testAccExampleResourceConfig [''1.2.0.0/16''] [''01.2.3.4/16''] 16)
       new_response =
     AddError ''Error parsing used_cidrs'' new_response"
proof -
  have v: "valid_cidr_text ''01.2.3.4/16''"
    by (simp add: eval_match)
  have p: "ParseCIDR ''01.2.3.4/16'' = Inl (ParseError ''CIDR address'' ''01.2.3.4/16'')"
    by (simp add: eval_parse)
  have a: "Create_from_cidrs f (testAccExampleResourceConfig [''01.2.3.4/16''] [] 16)
      new_response = AddError ''Error parsing from_cidrs'' new_response"
    by (simp add: eval_create p)
  have b: "Create_from_cidrs f
      (testAccExampleResourceConfig [''1.2.0.0/16''] [''01.2.3.4/16''] 16) new_response =
      AddError ''Error parsing used_cidrs'' new_response"
    by (simp add: eval_create p)
  have c: "Create_parent_cidrs c f (testAccExampleResourceConfig [''01.2.3.4/16''] [] 16)
      new_response = AddError ''Error parsing parent_cidrs'' new_response"
    by (simp add: eval_create p)
  have d: "Create_parent_cidrs c f
      (testAccExampleResourceConfig [''1.2.0.0/16''] [''01.2.3.4/16''] 16) new_response =
      AddError ''Error parsing used_cidrs'' new_response"
    by (simp add: eval_create p)
  from v p a b c d show ?thesis by simp
qed

theorem validated_text_fails_to_parse_witness:
  "valid_cidr_text ''01.2.3.4/16'' \<and>
   ParseCIDR ''01.2.3.4/16'' = Inl (ParseError ''CIDR address'' ''01.2.3.4/16'') \<and>
   Create_from_cidrs FindAvailableCIDR
       (testAccExampleResourceConfig [''01.2.3.4/16''] [] 16) new_response =
     AddError ''Error parsing from_cidrs'' new_response \<and>
   Create_parent_cidrs ContainsCIDR FindAvailableCIDR
       (testAccExampleResourceConfig [''1.2.0.0/16''] [''01.2.3.4/16''] 16) new_response =
     AddError ''Error parsing used_cidrs'' new_response"
  using validated_text_fails_to_parse [of FindAvailableCIDR ContainsCIDR] by simp

text \<open>
  Both loops use the library function only at the used list they pass to it: the
  \<open>parent_cidrs\<close> loop at the list filtered by containment in the parent, the
  \<open>from_cidrs\<close> loop at the whole list.
\<close>

lemma parent_loop_cong:
  assumes "\<And>p. f p m (filter (c p) us) = g p m (filter (c p) us)"
  shows "parent_loop c f m us ps res err = parent_loop c g m us ps res err"
  by (induction ps arbitrary: res err) (simp_all add: assms Let_def split: sum.splits)

lemma from_loop_cong:
  assumes "\<And>p. f p m us = g p m us"
  shows "from_loop f m us froms res err = from_loop g m us froms res err"
  by (induction froms arbitrary: res err) (simp_all add: assms split: sum.splits)

lemma Create_with_cong:
  assumes "\<And>usedCidrs m froms.
     parse_used (ElementsAs_strings (UsedCidrs (Plan_Get_data req))) = Inr usedCidrs \<Longrightarrow>
     search m usedCidrs froms = search' m usedCidrs froms"
  shows "Create_with ps search req resp = Create_with ps search' req resp"
  by (simp add: Create_with_def Let_def assms split: sum.splits)

text \<open>
  C2, amended. In the \<open>parent_cidrs\<close> variant only used ranges contained in the parent
  reach the allocator: \<open>Create\<close> is the same for any two allocators that agree on the
  used list filtered by \<open>contains(parent, _)\<close>. The \<open>from_cidrs\<close> variant has no
  filter: it depends on the allocator at the whole used list.
\<close>

theorem allocator_sees_contained_only:
  "((\<forall>usedCidrs p m.
      parse_used (ElementsAs_strings (UsedCidrs (Plan_Get_data req))) = Inr usedCidrs \<longrightarrow>
      f p m (filter (c p) usedCidrs) = g p m (filter (c p) usedCidrs)) \<longrightarrow>
    Create_parent_cidrs c f req resp = Create_parent_cidrs c g req resp) \<and>
   ((\<forall>usedCidrs p m.
      parse_used (ElementsAs_strings (UsedCidrs (Plan_Get_data req))) = Inr usedCidrs \<longrightarrow>
      f p m usedCidrs = g p m usedCidrs) \<longrightarrow>
    Create_from_cidrs f req resp = Create_from_cidrs g req resp)"
proof (intro conjI impI)
  assume h: "\<forall>usedCidrs p m.
      parse_used (ElementsAs_strings (UsedCidrs (Plan_Get_data req))) = Inr usedCidrs \<longrightarrow>
      f p m (filter (c p) usedCidrs) = g p m (filter (c p) usedCidrs)"
  show "Create_parent_cidrs c f req resp = Create_parent_cidrs c g req resp"
    unfolding Create_parent_cidrs_def
  proof (rule Create_with_cong)
    fix usedCidrs m froms
    assume "parse_used (ElementsAs_strings (UsedCidrs (Plan_Get_data req))) = Inr usedCidrs"
    with h have "\<And>p. f p m (filter (c p) usedCidrs) = g p m (filter (c p) usedCidrs)"
      by blast
    then show "parent_loop c f m usedCidrs froms None None =
        parent_loop c g m usedCidrs froms None None"
      by (rule parent_loop_cong)
  qed
next
  assume h: "\<forall>usedCidrs p m.
      parse_used (ElementsAs_strings (UsedCidrs (Plan_Get_data req))) = Inr usedCidrs \<longrightarrow>
      f p m usedCidrs = g p m usedCidrs"
  show "Create_from_cidrs f req resp = Create_from_cidrs g req resp"
    unfolding Create_from_cidrs_def
  proof (rule Create_with_cong)
    fix usedCidrs m froms
    assume "parse_used (ElementsAs_strings (UsedCidrs (Plan_Get_data req))) = Inr usedCidrs"
    with h have "\<And>p. f p m usedCidrs = g p m usedCidrs"
      by blast
    then show "from_loop f m usedCidrs froms None None =
        from_loop g m usedCidrs froms None None"
      by (rule from_loop_cong)
  qed
qed

theorem allocator_sees_contained_only_witness:
  "Create_parent_cidrs ContainsCIDR FindAvailableCIDR
      (testAccExampleResourceConfig [''10.0.0.0/24''] [''10.0.0.0/16''] 24) new_response =
   Create_parent_cidrs ContainsCIDR
      (\<lambda>p m us. if list_all (ContainsCIDR p) us then FindAvailableCIDR p m us
                 else Inl (OtherError ''a used range is outside the parent''))
      (testAccExampleResourceConfig [''10.0.0.0/24''] [''10.0.0.0/16''] 24) new_response \<and>
   Create_from_cidrs FindAvailableCIDR
      (testAccExampleResourceConfig [''10.0.0.0/24''] [''10.0.0.0/16''] 24) new_response =
   Create_from_cidrs
      (\<lambda>p m us. if us = [\<lparr>IP = 167772160, Mask = 16\<rparr>] then FindAvailableCIDR p m us
                 else Inl (OtherError ''not the whole used list''))
      (testAccExampleResourceConfig [''10.0.0.0/24''] [''10.0.0.0/16''] 24) new_response"
proof -
  let ?req = "testAccExampleResourceConfig [''10.0.0.0/24''] [''10.0.0.0/16''] 24"
  let ?g = "\<lambda>p m us. if list_all (ContainsCIDR p) us then FindAvailableCIDR p m us
                 else Inl (OtherError ''a used range is outside the parent'')"
  let ?g' = "\<lambda>p m us. if us = [\<lparr>IP = 167772160, Mask = 16\<rparr>] then FindAvailableCIDR p m us
                 else Inl (OtherError ''not the whole used list'')"
  have u: "parse_used (ElementsAs_strings (UsedCidrs (Plan_Get_data ?req))) =
      Inr [\<lparr>IP = 167772160, Mask = 16\<rparr>]"
    by (simp add: testAccExampleResourceConfig_def parse_10_0_16)
  have h1: "\<forall>usedCidrs p m.
      parse_used (ElementsAs_strings (UsedCidrs (Plan_Get_data ?req))) = Inr usedCidrs \<longrightarrow>
      FindAvailableCIDR p m (filter (ContainsCIDR p) usedCidrs) =
      ?g p m (filter (ContainsCIDR p) usedCidrs)"
    by (simp add: list_all_iff)
  have h2: "\<forall>usedCidrs p m.
      parse_used (ElementsAs_strings (UsedCidrs (Plan_Get_data ?req))) = Inr usedCidrs \<longrightarrow>
      FindAvailableCIDR p m usedCidrs = ?g' p m usedCidrs"
    by (simp add: u)
  from h1 h2
    allocator_sees_contained_only [of ?req FindAvailableCIDR ContainsCIDR ?g new_response]
    allocator_sees_contained_only [of ?req FindAvailableCIDR ContainsCIDR ?g' new_response]
  show ?thesis by blast
qed

text \<open>
  C2 as stated fails in the \<open>from_cidrs\<close> variant. The used range \<open>10.0.0.0/16\<close> is
  not contained in the range to search \<open>10.0.0.0/24\<close>; with the filtered (empty) list
  the allocator returns \<open>10.0.0.0/24\<close>, as the \<open>parent_cidrs\<close> variant stores it,
  but the \<open>from_cidrs\<close> variant passes the range on and reports that nothing is
  available.
\<close>

theorem from_cidrs_passes_uncontained:
  "ParseCIDR ''10.0.0.0/24'' = Inr \<lparr>IP = 167772160, Mask = 24\<rparr> \<and>
   ParseCIDR ''10.0.0.0/16'' = Inr \<lparr>IP = 167772160, Mask = 16\<rparr> \<and>
   \<not> ContainsCIDR \<lparr>IP = 167772160, Mask = 24\<rparr> \<lparr>IP = 167772160, Mask = 16\<rparr> \<and>
   FindAvailableCIDR \<lparr>IP = 167772160, Mask = 24\<rparr> (Some 24) [] =
     Inr \<lparr>IP = 167772160, Mask = 24\<rparr> \<and>
   Create_from_cidrs FindAvailableCIDR
      (testAccExampleResourceConfig [''10.0.0.0/24''] [''10.0.0.0/16''] 24) new_response =
     AddError ''No available CIDR found'' new_response \<and>
   map_option Result (State (Create_parent_cidrs ContainsCIDR FindAvailableCIDR
      (testAccExampleResourceConfig [''10.0.0.0/24''] [''10.0.0.0/16''] 24) new_response)) =
     Some (Some ''10.0.0.0/24'')"
proof -
  have c: "\<not> ContainsCIDR \<lparr>IP = 167772160, Mask = 24\<rparr> \<lparr>IP = 167772160, Mask = 16\<rparr>"
    by (simp add: eval_find)
  have f0: "FindAvailableCIDR \<lparr>IP = 167772160, Mask = 24\<rparr> (Some 24) [] =
      Inr \<lparr>IP = 167772160, Mask = 24\<rparr>"
    by (simp add: eval_find)
  have f1: "FindAvailableCIDR \<lparr>IP = 167772160, Mask = 24\<rparr> (Some 24)
      [\<lparr>IP = 167772160, Mask = 16\<rparr>] = Inl ErrNoAvailableCIDR"
    by (simp add: eval_find)
  have s: "IPNet_String (Some \<lparr>IP = 167772160, Mask = 24\<rparr>) = ''10.0.0.0/24''"
    by (simp add: eval_string)
  have a: "Create_from_cidrs FindAvailableCIDR
      (testAccExampleResourceConfig [''10.0.0.0/24''] [''10.0.0.0/16''] 24) new_response =
     AddError ''No available CIDR found'' new_response"
    by (simp add: eval_create CIDRMask_def parse_10_0_16 parse_10_0_24 f1)
  have b: "map_option Result (State (Create_parent_cidrs ContainsCIDR FindAvailableCIDR
      (testAccExampleResourceConfig [''10.0.0.0/24''] [''10.0.0.0/16''] 24) new_response)) =
     Some (Some ''10.0.0.0/24'')"
    by (simp add: eval_create CIDRMask_def parse_10_0_16 parse_10_0_24 c f0 s)
  from c f0 a b parse_10_0_16 parse_10_0_24 show ?thesis by simp
qed

section \<open>Rendering a network and parsing it again\<close>

lemma of_char_digit: "k < 10 \<Longrightarrow> (of_char (char_of (48 + k)) :: nat) = 48 + k"
  by (simp add: of_char_of)

lemma isDigit_digit: "(k::nat) < 10 \<Longrightarrow> isDigit (char_of (48 + k))"
  by (simp add: isDigit_def of_char_digit)

lemma not_isDigit_dot_slash: "\<not> isDigit (CHR ''.'')" "\<not> isDigit (CHR ''/'')"
  by (simp_all add: isDigit_def)

lemma uitoa_digits: "list_all isDigit (uitoa n)"
proof (induction n rule: uitoa.induct)
  case (1 val)
  show ?case
  proof (cases "val < 10")
    case True
    then show ?thesis by (simp add: uitoa.simps [of val] isDigit_digit)
  next
    case False
    with 1 show ?thesis by (simp add: uitoa.simps [of val] isDigit_digit)
  qed
qed

lemma uitoa_nonempty: "uitoa n \<noteq> []"
  by (subst uitoa.simps) simp

lemma decimal_uitoa: "decimal (uitoa n) = n"
proof (induction n rule: uitoa.induct)
  case (1 val)
  show ?case
  proof (cases "val < 10")
    case True
    then show ?thesis by (simp add: uitoa.simps [of val] of_char_digit)
  next
    case False
    with 1 have "decimal (uitoa (val div 10)) = val div 10" by simp
    with False show ?thesis by (simp add: uitoa.simps [of val] of_char_digit)
  qed
qed

lemma hd_uitoa: "0 < n \<Longrightarrow> hd (uitoa n) \<noteq> CHR ''0''"
proof (induction n rule: uitoa.induct)
  case (1 val)
  show ?case
  proof (cases "val < 10")
    case True
    have "(of_char (char_of (48 + val)) :: nat) \<noteq> of_char (CHR ''0'')"
      using True 1(2) by (simp add: of_char_digit)
    then have "char_of (48 + val) \<noteq> CHR ''0''"
      using arg_cong [of "char_of (48 + val)" "CHR ''0''" "of_char :: char \<Rightarrow> nat"] by blast
    with True show ?thesis by (simp add: uitoa.simps [of val])
  next
    case False
    then have "0 < val div 10" by simp
    with 1 False have "hd (uitoa (val div 10)) \<noteq> CHR ''0''" by simp
    with False show ?thesis by (simp add: uitoa.simps [of val] uitoa_nonempty)
  qed
qed

lemma length_uitoa_gt1: "1 < length (uitoa n) \<Longrightarrow> 0 < n"
  by (cases "n = 0") (simp_all add: uitoa.simps [of 0])

lemma foldl_step_mono: "a \<le> foldl (\<lambda>n c. n * 10 + (of_char c - 48)) (a::nat) ds"
proof (induction ds arbitrary: a)
  case Nil
  show ?case by simp
next
  case (Cons d ds)
  have "a \<le> a * 10 + (of_char d - 48)" by simp
  also have "\<dots> \<le> foldl (\<lambda>n c. n * 10 + (of_char c - 48)) (a * 10 + (of_char d - 48)) ds"
    by (rule Cons.IH)
  finally show ?case by simp
qed

lemma dtoi_loop_digits:
  assumes "list_all isDigit ds" and "rest = [] \<or> \<not> isDigit (hd rest)"
    and "foldl (\<lambda>n c. n * 10 + (of_char c - 48)) acc ds < big"
  shows "dtoi_loop (ds @ rest) acc i =
    (foldl (\<lambda>n c. n * 10 + (of_char c - 48)) acc ds, i + length ds, True)"
  using assms
proof (induction ds arbitrary: acc i)
  case Nil
  then show ?case by (cases rest) simp_all
next
  case (Cons d ds)
  let ?a = "acc * 10 + (of_char d - 48)"
  have lt: "foldl (\<lambda>n c. n * 10 + (of_char c - 48)) ?a ds < big"
    using Cons.prems(3) by simp
  from foldl_step_mono [of ?a ds] lt have "?a < big" by simp
  moreover have "dtoi_loop (ds @ rest) ?a (Suc i) =
      (foldl (\<lambda>n c. n * 10 + (of_char c - 48)) ?a ds, Suc i + length ds, True)"
    using Cons.prems(1,2) lt by (intro Cons.IH) simp_all
  ultimately show ?case using Cons.prems(1) by (simp add: Let_def)
qed

lemma dtoi_uitoa:
  assumes "n < big" and "rest = [] \<or> \<not> isDigit (hd rest)"
  shows "dtoi (uitoa n @ rest) = (n, length (uitoa n), True)"
proof -
  have "foldl (\<lambda>n c. n * 10 + (of_char c - 48)) 0 (uitoa n) = n"
    using decimal_uitoa [of n] by simp
  with dtoi_loop_digits [OF uitoa_digits assms(2), of 0 n 0] assms(1)
  have "dtoi_loop (uitoa n @ rest) 0 0 = (n, length (uitoa n), True)" by simp
  then show ?thesis using uitoa_nonempty [of n] by (simp add: dtoi_def)
qed


lemma parseIPv4_loop_first:
  assumes "n \<le> 255" and "rest = [] \<or> hd rest = CHR ''.''"
  shows "parseIPv4_loop (Suc k) (uitoa n @ rest) [] = parseIPv4_loop k rest [n]"
proof -
  have r: "rest = [] \<or> \<not> isDigit (hd rest)"
    using assms(2) not_isDigit_dot_slash by auto
  have d: "dtoi (uitoa n @ rest) = (n, length (uitoa n), True)"
    using assms(1) by (intro dtoi_uitoa r) (simp add: big_def)
  have h: "\<not> (1 < length (uitoa n) \<and> hd (uitoa n @ rest) = CHR ''0'')"
    using length_uitoa_gt1 [of n] hd_uitoa [of n] uitoa_nonempty [of n] by auto
  show ?thesis
    using assms(1) h uitoa_nonempty [of n] by (auto simp: d)
qed

lemma parseIPv4_loop_next:
  assumes "n \<le> 255" and "rest = [] \<or> hd rest = CHR ''.''" and "p \<noteq> []"
  shows "parseIPv4_loop (Suc k) (CHR ''.'' # uitoa n @ rest) p = parseIPv4_loop k rest (p @ [n])"
proof -
  have r: "rest = [] \<or> \<not> isDigit (hd rest)"
    using assms(2) not_isDigit_dot_slash by auto
  have d: "dtoi (uitoa n @ rest) = (n, length (uitoa n), True)"
    using assms(1) by (intro dtoi_uitoa r) (simp add: big_def)
  have h: "\<not> (1 < length (uitoa n) \<and> hd (uitoa n @ rest) = CHR ''0'')"
    using length_uitoa_gt1 [of n] hd_uitoa [of n] uitoa_nonempty [of n] by auto
  show ?thesis
    using assms(1,3) h uitoa_nonempty [of n] by (auto simp: d Let_def)
qed

lemma IPv4_IP_bytes: "IPv4 (IP_bytes w) = w"
proof -
  let ?n = "unat w"
  have a: "?n div 65536 = ?n div 16777216 * 256 + ?n div 65536 mod 256"
    using div_mult2_eq [of ?n 65536 256] by simp
  have b: "?n div 256 = ?n div 65536 * 256 + ?n div 256 mod 256"
    using div_mult2_eq [of ?n 256 256] by simp
  have "((?n div 16777216 * 256 + ?n div 65536 mod 256) * 256 + ?n div 256 mod 256) * 256 +
      ?n mod 256 = ?n"
    using a b by simp
  then show ?thesis by (simp add: IP_bytes_def)
qed

lemma IP_bytes_bound: "list_all (\<lambda>b. b \<le> 255) (IP_bytes w)"
proof -
  have "unat w < 4294967296"
    using unsigned_less [of w, where ?'a = nat] by simp
  then have "unat w div 16777216 \<le> 255" by simp
  moreover have "unat w div 65536 mod 256 \<le> 255" "unat w div 256 mod 256 \<le> 255"
    "unat w mod 256 \<le> 255"
    by simp_all
  ultimately show ?thesis by (simp add: IP_bytes_def)
qed

lemma parseIPv4_IP_String: "parseIPv4 (IP_String w) = Some w"
proof -
  obtain a b c d where bs: "IP_bytes w = [a, b, c, d]"
    by (simp add: IP_bytes_def)
  with IP_bytes_bound [of w] have le: "a \<le> 255" "b \<le> 255" "c \<le> 255" "d \<le> 255"
    by simp_all
  have s: "IP_String w = uitoa a @ CHR ''.'' # uitoa b @ CHR ''.'' # uitoa c @ CHR ''.'' # uitoa d @ []"
    by (simp add: IP_String_def bs)
  have "parseIPv4_loop 4 (IP_String w) [] =
      parseIPv4_loop (Suc (Suc (Suc (Suc 0))))
        (uitoa a @ CHR ''.'' # uitoa b @ CHR ''.'' # uitoa c @ CHR ''.'' # uitoa d @ []) []"
    unfolding s by (rule parseIPv4_loop_4)
  also have "\<dots> = parseIPv4_loop (Suc (Suc (Suc 0)))
      (CHR ''.'' # uitoa b @ CHR ''.'' # uitoa c @ CHR ''.'' # uitoa d @ []) [a]"
    by (rule parseIPv4_loop_first [OF le(1)]) simp
  also have "\<dots> = parseIPv4_loop (Suc (Suc 0))
      (CHR ''.'' # uitoa c @ CHR ''.'' # uitoa d @ []) ([a] @ [b])"
    by (rule parseIPv4_loop_next [OF le(2)]) simp_all
  also have "\<dots> = parseIPv4_loop (Suc 0) (CHR ''.'' # uitoa d @ []) (([a] @ [b]) @ [c])"
    by (rule parseIPv4_loop_next [OF le(3)]) simp_all
  also have "\<dots> = parseIPv4_loop 0 [] ((([a] @ [b]) @ [c]) @ [d])"
    by (rule parseIPv4_loop_next [OF le(4)]) simp_all
  finally have "parseIPv4_loop 4 (IP_String w) [] = Some (IP_bytes w)"
    by (simp add: bs)
  then show ?thesis by (simp add: parseIPv4_def IPv4_IP_bytes)
qed


lemma IndexByteString_append:
  "c \<notin> set xs \<Longrightarrow> IndexByteString (xs @ c # ys) c = Some (length xs)"
  by (induction xs) auto

lemma slash_not_in_uitoa: "CHR ''/'' \<notin> set (uitoa n)"
  using uitoa_digits [of n] not_isDigit_dot_slash(2) by (auto simp: list_all_iff)

lemma slash_not_in_IP_String: "CHR ''/'' \<notin> set (IP_String w)"
  by (simp add: IP_String_def IP_bytes_def slash_not_in_uitoa)

lemma ParseCIDR_String:
  assumes "m \<le> 32"
  shows "ParseCIDR (IP_String w @ CHR ''/'' # uitoa m) = Inr \<lparr>IP = IP_Mask w m, Mask = m\<rparr>"
proof -
  have i: "IndexByteString (IP_String w @ CHR ''/'' # uitoa m) (CHR ''/'') =
      Some (length (IP_String w))"
    by (rule IndexByteString_append [OF slash_not_in_IP_String])
  have d: "dtoi (uitoa m) = (m, length (uitoa m), True)"
    using dtoi_uitoa [of m "[]"] assms by (simp add: big_def)
  show ?thesis
    using assms by (simp add: ParseCIDR_def i d parseIPv4_IP_String)
qed

lemma ParseCIDR_Inr:
  assumes "ParseCIDR t = Inr r"
  shows "\<exists>a. r = \<lparr>IP = IP_Mask a (Mask r), Mask = Mask r\<rparr> \<and> Mask r \<le> 32"
  using assms
  by (auto simp: ParseCIDR_def Let_def split: option.splits prod.splits if_splits)

lemma IP_Mask_idem: "IP_Mask (IP_Mask a n) n = IP_Mask a n"
  by (simp add: IP_Mask_def and.assoc)

lemma bit_IP_Mask: "bit (IP_Mask w m) n \<longleftrightarrow> bit w n \<and> 32 - m \<le> n"
  by (auto simp: IP_Mask_def bit_and_iff bit_not_iff bit_mask_iff dest: bit_imp_le_length)

lemma ParseCIDR_parts:
  assumes "ParseCIDR t = Inr r"
  shows "\<exists>i a. IndexByteString t (CHR ''/'') = Some i \<and>
      parseIPv4 (take i t) = Some a \<and>
      dtoi (drop (Suc i) t) = (Mask r, length (drop (Suc i) t), True) \<and>
      Mask r \<le> 32 \<and> IP r = IP_Mask a (Mask r)"
  using assms
  by (auto simp: ParseCIDR_def Let_def split: option.splits prod.splits if_splits)

text \<open>
  C8. Parsing clears the host bits and nothing else. For every text that parses, the
  network is the address read from the part before the slash with the bits below the
  prefix length cleared, the prefix length is the number after the slash, and parsing
  the rendered network gives the same network again. The dotted text of any address
  \<open>w\<close> reads back as \<open>w\<close>, so the text of \<open>w\<close> with prefix length \<open>m\<close> parses to the
  network whose bits are those of \<open>w\<close> from position \<open>32 - m\<close> upwards:
  \<open>10.0.0.5/24\<close> parses to \<open>10.0.0.0/24\<close> and \<open>192.168.37.200/20\<close> to
  \<open>192.168.32.0/20\<close>.
\<close>

theorem parse_render_parse:
  "ParseCIDR ''10.0.0.5/24'' = Inr \<lparr>IP = 167772160, Mask = 24\<rparr> \<and>
   ParseCIDR ''10.0.0.0/24'' = Inr \<lparr>IP = 167772160, Mask = 24\<rparr> \<and>
   IPNet_String (Some \<lparr>IP = 167772160, Mask = 24\<rparr>) = ''10.0.0.0/24'' \<and>
   ParseCIDR ''192.168.37.200/20'' = Inr \<lparr>IP = 3232243712, Mask = 20\<rparr> \<and>
   IPNet_String (Some \<lparr>IP = 3232243712, Mask = 20\<rparr>) = ''192.168.32.0/20'' \<and>
   (ParseCIDR t = Inr r \<longrightarrow>
      IP_Mask (IP r) (Mask r) = IP r \<and> ParseCIDR (IPNet_String (Some r)) = Inr r) \<and>
   (ParseCIDR t = Inr r \<longrightarrow>
      (\<exists>i a. IndexByteString t (CHR ''/'') = Some i \<and>
         parseIPv4 (take i t) = Some a \<and>
         dtoi (drop (Suc i) t) = (Mask r, length (drop (Suc i) t), True) \<and>
         Mask r \<le> 32 \<and> IP r = IP_Mask a (Mask r))) \<and>
   parseIPv4 (IP_String w) = Some w \<and>
   (m \<le> 32 \<longrightarrow>
      dtoi (uitoa m) = (m, length (uitoa m), True) \<and>
      ParseCIDR (IP_String w @ ''/'' @ uitoa m) = Inr \<lparr>IP = IP_Mask w m, Mask = m\<rparr>) \<and>
   (bit (IP_Mask w m) n \<longleftrightarrow> bit w n \<and> 32 - m \<le> n)"
proof -
  have e1: "ParseCIDR ''10.0.0.5/24'' = Inr \<lparr>IP = 167772160, Mask = 24\<rparr>"
    by (simp add: eval_parse)
  have e2: "ParseCIDR ''10.0.0.0/24'' = Inr \<lparr>IP = 167772160, Mask = 24\<rparr>"
    by (simp add: eval_parse)
  have e3: "IPNet_String (Some \<lparr>IP = 167772160, Mask = 24\<rparr>) = ''10.0.0.0/24''"
    by (simp add: eval_string)
  have e4: "ParseCIDR ''192.168.37.200/20'' = Inr \<lparr>IP = 3232243712, Mask = 20\<rparr>"
    by (simp add: eval_parse)
  have e5: "IPNet_String (Some \<lparr>IP = 3232243712, Mask = 20\<rparr>) = ''192.168.32.0/20''"
    by (simp add: eval_string)
  have g: "IP_Mask (IP r) (Mask r) = IP r \<and> ParseCIDR (IPNet_String (Some r)) = Inr r"
    if "ParseCIDR t = Inr r"
  proof -
    from ParseCIDR_Inr [OF that] obtain a where
      r: "r = \<lparr>IP = IP_Mask a (Mask r), Mask = Mask r\<rparr>" and m: "Mask r \<le> 32"
      by blast
    have ip: "IP r = IP_Mask a (Mask r)"
      by (subst r) simp
    have "ParseCIDR (IPNet_String (Some r)) =
        Inr \<lparr>IP = IP_Mask (IP r) (Mask r), Mask = Mask r\<rparr>"
      using ParseCIDR_String [OF m, of "IP r"] by (simp add: IPNet_String_def)
    also have "\<dots> = Inr r"
      by (subst (3) r) (simp add: ip IP_Mask_idem)
    finally show ?thesis by (simp add: ip IP_Mask_idem)
  qed
  have d: "dtoi (uitoa m) = (m, length (uitoa m), True)" if "m \<le> 32"
    using dtoi_uitoa [of m "[]"] that by (simp add: big_def)
  have s: "ParseCIDR (IP_String w @ ''/'' @ uitoa m) = Inr \<lparr>IP = IP_Mask w m, Mask = m\<rparr>"
    if "m \<le> 32"
    using ParseCIDR_String [OF that, of w] by simp
  from e1 e2 e3 e4 e5 g ParseCIDR_parts [of t r] parseIPv4_IP_String [of w] d s
    bit_IP_Mask [of w m n]
  show ?thesis by blast
qed

theorem parse_render_parse_witness:
  "ParseCIDR ''10.0.0.5/24'' = Inr \<lparr>IP = 167772160, Mask = 24\<rparr> \<and>
   IPNet_String (Some \<lparr>IP = 167772160, Mask = 24\<rparr>) = ''10.0.0.0/24'' \<and>
   IP_Mask 167772160 24 = 167772160 \<and>
   ParseCIDR (IPNet_String (Some \<lparr>IP = 167772160, Mask = 24\<rparr>)) =
     Inr \<lparr>IP = 167772160, Mask = 24\<rparr> \<and>
   (24::nat) \<le> 32 \<and>
   IP_String 167772165 = ''10.0.0.5'' \<and>
   ParseCIDR (IP_String 167772165 @ ''/'' @ uitoa 24) =
     Inr \<lparr>IP = IP_Mask 167772165 24, Mask = 24\<rparr> \<and>
   IP_Mask 167772165 24 = 167772160 \<and>
   bit (167772165 :: 32 word) 2 \<and> \<not> bit (IP_Mask 167772165 24) 2 \<and>
   bit (167772165 :: 32 word) 27 \<and> bit (IP_Mask 167772165 24) 27"
proof -
  have a: "IP_String 167772165 = ''10.0.0.5''"
    by (simp add: eval_string)
  have b: "IP_Mask 167772165 24 = 167772160"
    by (simp add: IP_Mask_def mask_eq_exp_minus_1)
  have c: "bit (167772165 :: 32 word) 2" "bit (167772165 :: 32 word) 27"
    by (simp_all add: bit_iff_odd drop_bit_eq_div)
  note t1 = parse_render_parse [of "''10.0.0.5/24''" "\<lparr>IP = 167772160, Mask = 24\<rparr>"
      167772165 24 2]
  note t2 = parse_render_parse [of "''10.0.0.5/24''" "\<lparr>IP = 167772160, Mask = 24\<rparr>"
      167772165 24 27]
  from a b c t1 t2 show ?thesis by simp
qed

section \<open>The search for a free block\<close>

lemma walk_shift:
  "\<lparr>IP = (b + word_of_nat s) + word_of_nat (j * s), Mask = t\<rparr> =
   \<lparr>IP = b + word_of_nat (Suc j * s), Mask = (t::nat)\<rparr>"
  by (simp add: algebra_simps)

lemma walk_Inr:
  "walk k b t used = Inr r \<Longrightarrow>
     \<exists>i<k. r = \<lparr>IP = b + word_of_nat (i * 2 ^ (32 - t)), Mask = t\<rparr> \<and>
        \<not> list_ex (overlaps r) used \<and>
        (\<forall>j<i. list_ex (overlaps \<lparr>IP = b + word_of_nat (j * 2 ^ (32 - t)), Mask = t\<rparr>) used)"
proof (induction k arbitrary: b)
  case 0
  then show ?case by simp
next
  case (Suc k)
  let ?s = "2 ^ (32 - t) :: nat"
  show ?case
  proof (cases "list_ex (overlaps \<lparr>IP = b, Mask = t\<rparr>) used")
    case False
    with Suc.prems have "r = \<lparr>IP = b, Mask = t\<rparr>" by (simp add: Let_def)
    with False show ?thesis by (intro exI [of _ 0]) simp
  next
    case True
    with Suc.prems have "walk k (b + word_of_nat ?s) t used = Inr r" by (simp add: Let_def)
    from Suc.IH [OF this] obtain i where i: "i < k"
      "r = \<lparr>IP = (b + word_of_nat ?s) + word_of_nat (i * ?s), Mask = t\<rparr>"
      "\<not> list_ex (overlaps r) used"
      "\<forall>j<i. list_ex (overlaps \<lparr>IP = (b + word_of_nat ?s) + word_of_nat (j * ?s), Mask = t\<rparr>) used"
      by blast
    have "\<forall>j<Suc i. list_ex (overlaps \<lparr>IP = b + word_of_nat (j * ?s), Mask = t\<rparr>) used"
    proof (intro allI impI)
      fix j assume "j < Suc i"
      show "list_ex (overlaps \<lparr>IP = b + word_of_nat (j * ?s), Mask = t\<rparr>) used"
      proof (cases j)
        case 0
        with True show ?thesis by simp
      next
        case (Suc j')
        with \<open>j < Suc i\<close> have "j' < i" by simp
        with i(4) have
          "list_ex (overlaps \<lparr>IP = (b + word_of_nat ?s) + word_of_nat (j' * ?s), Mask = t\<rparr>) used"
          by blast
        then show ?thesis unfolding walk_shift Suc .
      qed
    qed
    with i(1,2,3) show ?thesis
      unfolding walk_shift by (intro exI [of _ "Suc i"]) simp
  qed
qed

lemma walk_Inl_iff:
  "walk k b t used = Inl e \<longleftrightarrow>
     e = ErrNoAvailableCIDR \<and>
     (\<forall>j<k. list_ex (overlaps \<lparr>IP = b + word_of_nat (j * 2 ^ (32 - t)), Mask = t\<rparr>) used)"
proof (induction k arbitrary: b)
  case 0
  show ?case by auto
next
  case (Suc k)
  let ?s = "2 ^ (32 - t) :: nat"
  show ?case
  proof (cases "list_ex (overlaps \<lparr>IP = b, Mask = t\<rparr>) used")
    case False
    then have "\<not> (\<forall>j<Suc k. list_ex (overlaps \<lparr>IP = b + word_of_nat (j * ?s), Mask = t\<rparr>) used)"
      by (auto intro: exI [of _ 0])
    with False show ?thesis by (simp add: Let_def)
  next
    case True
    have "(\<forall>j<Suc k. list_ex (overlaps \<lparr>IP = b + word_of_nat (j * ?s), Mask = t\<rparr>) used) \<longleftrightarrow>
        (\<forall>j<k. list_ex (overlaps \<lparr>IP = (b + word_of_nat ?s) + word_of_nat (j * ?s), Mask = t\<rparr>) used)"
      (is "?L \<longleftrightarrow> ?R")
    proof
      assume l: ?L
      show ?R
      proof (intro allI impI)
        fix j assume "j < k"
        then have "Suc j < Suc k" by simp
        with l have "list_ex (overlaps \<lparr>IP = b + word_of_nat (Suc j * ?s), Mask = t\<rparr>) used"
          by blast
        then show "list_ex (overlaps \<lparr>IP = (b + word_of_nat ?s) + word_of_nat (j * ?s), Mask = t\<rparr>) used"
          unfolding walk_shift .
      qed
    next
      assume r: ?R
      show ?L
      proof (intro allI impI)
        fix j assume jk: "j < Suc k"
        show "list_ex (overlaps \<lparr>IP = b + word_of_nat (j * ?s), Mask = t\<rparr>) used"
        proof (cases j)
          case 0
          with True show ?thesis by simp
        next
          case (Suc j')
          with jk have "j' < k" by simp
          with r have
            "list_ex (overlaps \<lparr>IP = (b + word_of_nat ?s) + word_of_nat (j' * ?s), Mask = t\<rparr>) used"
            by blast
          then show ?thesis unfolding walk_shift Suc .
        qed
      qed
    qed
    with True Suc.IH [of "b + word_of_nat ?s"] show ?thesis by (simp add: Let_def)
  qed
qed


lemma canonical_dvd:
  assumes "IP_Mask ip m = ip"
  shows "2 ^ (32 - m) dvd unat ip"
proof -
  let ?k = "32 - m"
  have "take_bit ?k ip = take_bit ?k (ip AND NOT (mask ?k))"
    using assms by (simp add: IP_Mask_def)
  also have "\<dots> = 0"
    by (simp add: take_bit_eq_mask and.assoc)
  finally have "take_bit ?k (unat ip) = 0"
    by (metis unsigned_take_bit_eq unsigned_0)
  then show ?thesis
    by (simp add: take_bit_eq_mod mod_eq_0_iff_dvd)
qed

lemma canonical_fits:
  assumes "2 ^ k dvd (B::nat)" and "B < 2 ^ 32" and "k \<le> 32"
  shows "B + 2 ^ k \<le> 2 ^ 32"
proof -
  from assms(1) obtain q where q: "B = 2 ^ k * q" by (auto simp: dvd_def)
  have p: "(2::nat) ^ 32 = 2 ^ k * 2 ^ (32 - k)"
    using assms(3) by (simp flip: power_add)
  from assms(2) q p have "2 ^ k * q < 2 ^ k * (2::nat) ^ (32 - k)" by simp
  then have "q < 2 ^ (32 - k)" by simp
  then have "Suc q \<le> 2 ^ (32 - k)" by simp
  then have "2 ^ k * Suc q \<le> 2 ^ k * (2::nat) ^ (32 - k)"
    by (rule mult_le_mono2)
  with q p show ?thesis by simp
qed

lemma candidate_bounds:
  assumes c: "IP_Mask (IP parent) (Mask parent) = IP parent"
    and m: "Mask parent \<le> target" and t: "target \<le> 32"
    and i: "i < candidateCount parent target"
  shows "firstAddress (candidate parent target i) = firstAddress parent + i * 2 ^ (32 - target)"
    and "firstAddress parent + i * 2 ^ (32 - target) + 2 ^ (32 - target) \<le>
      firstAddress parent + block_size parent"
    and "firstAddress parent + block_size parent \<le> 2 ^ 32"
proof -
  let ?B = "unat (IP parent)"
  let ?S = "(2::nat) ^ (32 - Mask parent)"
  let ?s = "(2::nat) ^ (32 - target)"
  have S: "?S = ?s * 2 ^ (target - Mask parent)"
    using m t by (simp flip: power_add)
  then have cnt: "candidateCount parent target = 2 ^ (target - Mask parent)"
    by (simp add: candidateCount_def block_size_def)
  have "Suc i \<le> 2 ^ (target - Mask parent)" using i cnt by simp
  then have "?s * Suc i \<le> ?s * 2 ^ (target - Mask parent)" by (rule mult_le_mono2)
  then have step: "i * ?s + ?s \<le> ?S" using S by (simp add: algebra_simps)
  have "?B < 2 ^ 32" using unsigned_less [of "IP parent", where ?'a = nat] by simp
  with canonical_dvd [OF c] have fit: "?B + ?S \<le> 2 ^ 32"
    by (intro canonical_fits) simp_all
  have pos: "0 < ?s" by simp
  from step fit pos have lt: "?B + i * ?s < 2 ^ 32" by linarith
  have "unat (IP parent + word_of_nat (i * ?s)) = ?B + i * ?s"
  proof -
    have "i * ?s < 2 ^ 32" using lt by linarith
    have "unat (word_of_nat (i * ?s) :: 32 word) = (i * ?s) mod 2 ^ LENGTH(32)"
      by (rule unat_of_nat)
    also have "\<dots> = i * ?s"
      using \<open>i * ?s < 2 ^ 32\<close> by simp
    finally have u: "unat (word_of_nat (i * ?s) :: 32 word) = i * ?s" .
    have "unat (IP parent) + unat (word_of_nat (i * ?s) :: 32 word) < 2 ^ LENGTH(32)"
      using lt u by simp
    then show ?thesis using u by (simp add: unat_add_lem [THEN iffD1])
  qed
  then show "firstAddress (candidate parent target i) = firstAddress parent + i * ?s"
    by (simp add: firstAddress_def candidate_def)
  show "firstAddress parent + i * ?s + ?s \<le> firstAddress parent + block_size parent"
    using step by (simp add: firstAddress_def block_size_def)
  show "firstAddress parent + block_size parent \<le> 2 ^ 32"
    using fit by (simp add: firstAddress_def block_size_def)
qed


lemma FindAvailableCidr_Inr:
  assumes "FindAvailableCidr parent target used = Inr r"
  shows "Mask parent \<le> target \<and>
    (\<exists>i<candidateCount parent target. r = candidate parent target i \<and>
       \<not> list_ex (overlaps r) used \<and>
       (\<forall>j<i. list_ex (overlaps (candidate parent target j)) used))"
proof -
  from assms have m: "Mask parent \<le> target"
    by (simp add: FindAvailableCidr_def split: if_splits)
  with assms have "walk (candidateCount parent target) (IP parent) target used = Inr r"
    by (simp add: FindAvailableCidr_def candidateCount_def Let_def)
  from walk_Inr [OF this] m show ?thesis
    unfolding candidate_def by blast
qed

lemma FindAvailableCidr_Inl_iff:
  "FindAvailableCidr parent target used = Inl ErrNoAvailableCIDR \<longleftrightarrow>
     Mask parent \<le> target \<and>
     (\<forall>i<candidateCount parent target.
        list_ex (overlaps (candidate parent target i)) used)"
proof (cases "target < Mask parent")
  case True
  then show ?thesis by (simp add: FindAvailableCidr_def)
next
  case False
  then have "FindAvailableCidr parent target used =
      walk (candidateCount parent target) (IP parent) target used"
    by (simp add: FindAvailableCidr_def candidateCount_def Let_def)
  with False show ?thesis
    unfolding candidate_def by (simp only: walk_Inl_iff) auto
qed

lemma first_le_last: "firstAddress a \<le> lastAddress a"
proof -
  have "0 < (2::nat) ^ (32 - Mask a)" by simp
  then show ?thesis unfolding lastAddress_def block_size_def by linarith
qed

lemma overlaps_iff_meet:
  "overlaps a b \<longleftrightarrow>
     {firstAddress a..lastAddress a} \<inter> {firstAddress b..lastAddress b} \<noteq> {}"
proof -
  have a: "firstAddress a \<le> lastAddress a" and b: "firstAddress b \<le> lastAddress b"
    by (rule first_le_last)+
  show ?thesis
    using a b by (auto simp: overlaps_def)
qed

lemma dvd_canonical:
  assumes "2 ^ (32 - m) dvd unat ip"
  shows "IP_Mask ip m = ip"
proof (rule bit_eqI)
  fix n
  let ?k = "32 - m"
  have "take_bit ?k (unat ip) = 0"
    using assms by (simp add: take_bit_eq_mod mod_eq_0_iff_dvd)
  then have "unat (take_bit ?k ip) = 0"
    by (simp add: unsigned_take_bit_eq)
  then have z: "take_bit ?k ip = 0"
    by (simp add: unsigned_eq_0_iff)
  have "\<not> bit ip n" if "n < ?k"
  proof -
    have "bit (take_bit ?k ip) n \<longleftrightarrow> bit ip n"
      using that by (simp add: bit_take_bit_iff)
    with z show ?thesis by simp
  qed
  then show "bit (IP_Mask ip m) n \<longleftrightarrow> bit ip n"
    unfolding bit_IP_Mask by (meson not_le)
qed

text \<open>
  C3. For a parent without host bits and a target prefix length of at most 32, a
  block that the search returns has the target prefix length and no host bits, so its
  size is \<open>2^(32 - targetPrefixLength)\<close>; it is contained in the parent, and it
  overlaps no entry of the used list: its addresses and those of any used range have
  nothing in common.
\<close>

theorem found_block_inside_and_free:
  "IP_Mask (IP parent) (Mask parent) = IP parent \<and> target \<le> 32 \<and>
   FindAvailableCidr parent target used = Inr r \<longrightarrow>
     Mask r = target \<and>
     IP_Mask (IP r) (Mask r) = IP r \<and>
     block_size r = 2 ^ (32 - target) \<and>
     ContainsCIDR parent r \<and>
     (\<forall>u \<in> set used. \<not> overlaps r u \<and>
        {firstAddress r..lastAddress r} \<inter> {firstAddress u..lastAddress u} = {})"
proof (intro impI, elim conjE)
  assume c: "IP_Mask (IP parent) (Mask parent) = IP parent" and t: "target \<le> 32"
    and f: "FindAvailableCidr parent target used = Inr r"
  from FindAvailableCidr_Inr [OF f] obtain i where m: "Mask parent \<le> target"
    and i: "i < candidateCount parent target" and r: "r = candidate parent target i"
    and free: "\<not> list_ex (overlaps r) used"
    by blast
  have mk: "Mask r = target"
    by (simp add: r candidate_def)
  have sz: "block_size r = 2 ^ (32 - target)"
    by (simp add: r candidate_def block_size_def)
  note b = candidate_bounds [OF c m t i]
  have "(2::nat) ^ (32 - target) dvd 2 ^ (32 - Mask parent)"
    using m by (intro le_imp_power_dvd) simp
  with canonical_dvd [OF c] have "2 ^ (32 - target) dvd unat (IP parent)"
    by (rule dvd_trans [rotated])
  then have "2 ^ (32 - target) dvd firstAddress r"
    using b(1) by (simp add: r [symmetric] firstAddress_def)
  then have cn: "IP_Mask (IP r) (Mask r) = IP r"
    unfolding mk firstAddress_def by (rule dvd_canonical)
  have "firstAddress parent \<le> firstAddress r"
    using b(1) by (simp add: r)
  moreover have "lastAddress r \<le> lastAddress parent"
    using b(1,2) sz unfolding lastAddress_def r [symmetric] by linarith
  ultimately have "ContainsCIDR parent r"
    by (simp add: ContainsCIDR_def)
  moreover have "\<forall>u \<in> set used. \<not> overlaps r u \<and>
      {firstAddress r..lastAddress r} \<inter> {firstAddress u..lastAddress u} = {}"
    using free overlaps_iff_meet by (auto simp: list_ex_iff)
  ultimately show "Mask r = target \<and> IP_Mask (IP r) (Mask r) = IP r \<and>
     block_size r = 2 ^ (32 - target) \<and> ContainsCIDR parent r \<and>
     (\<forall>u \<in> set used. \<not> overlaps r u \<and>
        {firstAddress r..lastAddress r} \<inter> {firstAddress u..lastAddress u} = {})"
    using sz mk cn by blast
qed

lemma find_test_example:
  "FindAvailableCidr \<lparr>IP = 167837696, Mask = 16\<rparr> 24 [\<lparr>IP = 167837696, Mask = 24\<rparr>] =
     Inr \<lparr>IP = 167837952, Mask = 24\<rparr>"
  by (simp add: eval_find)

lemma find_doc_example:
  "FindAvailableCidr \<lparr>IP = 167772160, Mask = 16\<rparr> 24
     [\<lparr>IP = 167772160, Mask = 20\<rparr>, \<lparr>IP = 167776256, Mask = 24\<rparr>] =
     Inr \<lparr>IP = 167776512, Mask = 24\<rparr>"
  by (simp add: eval_find)

theorem found_block_inside_and_free_witness:
  "IP_Mask 167837696 16 = 167837696 \<and> (24::nat) \<le> 32 \<and>
   FindAvailableCidr \<lparr>IP = 167837696, Mask = 16\<rparr> 24 [\<lparr>IP = 167837696, Mask = 24\<rparr>] =
     Inr \<lparr>IP = 167837952, Mask = 24\<rparr> \<and>
   IP_Mask 167837952 24 = 167837952 \<and>
   block_size \<lparr>IP = 167837952, Mask = 24\<rparr> = 2 ^ (32 - 24) \<and>
   ContainsCIDR \<lparr>IP = 167837696, Mask = 16\<rparr> \<lparr>IP = 167837952, Mask = 24\<rparr> \<and>
   \<not> overlaps \<lparr>IP = 167837952, Mask = 24\<rparr> \<lparr>IP = 167837696, Mask = 24\<rparr>"
proof -
  have h: "IP_Mask 167837696 16 = 167837696"
    by (simp add: IP_Mask_def mask_eq_exp_minus_1)
  from h find_test_example
    found_block_inside_and_free [of "\<lparr>IP = 167837696, Mask = 16\<rparr>" 24
      "[\<lparr>IP = 167837696, Mask = 24\<rparr>]" "\<lparr>IP = 167837952, Mask = 24\<rparr>"]
  show ?thesis by simp
qed

text \<open>
  C4. The search is first fit in ascending address order: a returned block is a
  candidate, it is free, and every candidate before it conflicts with a used range; for
  a parent without host bits no free candidate has a lower first address. For parent
  \<open>10.1.0.0/16\<close>, used \<open>10.1.0.0/24\<close> and mask 24 the result is \<open>10.1.1.0/24\<close>
  (the acceptance test); for parent \<open>10.0.0.0/16\<close>, used \<open>10.0.0.0/20\<close> and
  \<open>10.0.16.0/24\<close> and mask 24 it is \<open>10.0.17.0/24\<close> (the example of the resource).
  Both are also what \<open>Create\<close> stores as \<open>id\<close> and \<open>result\<close>.
\<close>

theorem first_fit:
  "(FindAvailableCidr parent target used = Inr r \<longrightarrow>
      (\<exists>i<candidateCount parent target. r = candidate parent target i \<and>
         \<not> list_ex (overlaps r) used \<and>
         (\<forall>j<i. list_ex (overlaps (candidate parent target j)) used))) \<and>
   (IP_Mask (IP parent) (Mask parent) = IP parent \<and> target \<le> 32 \<and>
    FindAvailableCidr parent target used = Inr r \<longrightarrow>
      (\<forall>j<candidateCount parent target.
         \<not> list_ex (overlaps (candidate parent target j)) used \<longrightarrow>
         firstAddress r \<le> firstAddress (candidate parent target j))) \<and>
   FindAvailableCidr \<lparr>IP = 167837696, Mask = 16\<rparr> 24 [\<lparr>IP = 167837696, Mask = 24\<rparr>] =
     Inr \<lparr>IP = 167837952, Mask = 24\<rparr> \<and>
   FindAvailableCidr \<lparr>IP = 167772160, Mask = 16\<rparr> 24
     [\<lparr>IP = 167772160, Mask = 20\<rparr>, \<lparr>IP = 167776256, Mask = 24\<rparr>] =
     Inr \<lparr>IP = 167776512, Mask = 24\<rparr> \<and>
   State (Create_from_cidrs FindAvailableCIDR
      (testAccExampleResourceConfig [''10.1.0.0/16''] [''10.1.0.0/24''] 24) new_response) =
     Some ((Plan_Get_data
        (testAccExampleResourceConfig [''10.1.0.0/16''] [''10.1.0.0/24''] 24))
          \<lparr>Id_attr := Some ''10.1.1.0/24'', Result := Some ''10.1.1.0/24''\<rparr>) \<and>
   State (Create_from_cidrs FindAvailableCIDR
      (testAccExampleResourceConfig [''10.0.0.0/16''] [''10.0.0.0/20'', ''10.0.16.0/24''] 24)
      new_response) =
     Some ((Plan_Get_data
        (testAccExampleResourceConfig [''10.0.0.0/16''] [''10.0.0.0/20'', ''10.0.16.0/24''] 24))
          \<lparr>Id_attr := Some ''10.0.17.0/24'', Result := Some ''10.0.17.0/24''\<rparr>)"
proof -
  have a: "FindAvailableCidr parent target used = Inr r \<longrightarrow>
      (\<exists>i<candidateCount parent target. r = candidate parent target i \<and>
         \<not> list_ex (overlaps r) used \<and>
         (\<forall>j<i. list_ex (overlaps (candidate parent target j)) used))"
    using FindAvailableCidr_Inr by blast
  have b: "IP_Mask (IP parent) (Mask parent) = IP parent \<and> target \<le> 32 \<and>
    FindAvailableCidr parent target used = Inr r \<longrightarrow>
      (\<forall>j<candidateCount parent target.
         \<not> list_ex (overlaps (candidate parent target j)) used \<longrightarrow>
         firstAddress r \<le> firstAddress (candidate parent target j))"
  proof (intro impI allI, elim conjE)
    fix j
    assume c: "IP_Mask (IP parent) (Mask parent) = IP parent" and t: "target \<le> 32"
      and f: "FindAvailableCidr parent target used = Inr r"
      and j: "j < candidateCount parent target"
      and free: "\<not> list_ex (overlaps (candidate parent target j)) used"
    from FindAvailableCidr_Inr [OF f] obtain i where m: "Mask parent \<le> target"
      and i: "i < candidateCount parent target" and r: "r = candidate parent target i"
      and before: "\<forall>j<i. list_ex (overlaps (candidate parent target j)) used"
      by blast
    from before free have "i \<le> j" by (meson not_le)
    then have "i * 2 ^ (32 - target) \<le> j * 2 ^ (32 - target)" by simp
    with candidate_bounds(1) [OF c m t i] candidate_bounds(1) [OF c m t j]
    show "firstAddress r \<le> firstAddress (candidate parent target j)"
      by (simp add: r)
  qed
  have p1: "ParseCIDR ''10.1.0.0/16'' = Inr \<lparr>IP = 167837696, Mask = 16\<rparr>"
    "ParseCIDR ''10.1.0.0/24'' = Inr \<lparr>IP = 167837696, Mask = 24\<rparr>"
    "ParseCIDR ''10.0.0.0/16'' = Inr \<lparr>IP = 167772160, Mask = 16\<rparr>"
    "ParseCIDR ''10.0.0.0/20'' = Inr \<lparr>IP = 167772160, Mask = 20\<rparr>"
    "ParseCIDR ''10.0.16.0/24'' = Inr \<lparr>IP = 167776256, Mask = 24\<rparr>"
    by (simp_all add: eval_parse)
  have s: "IPNet_String (Some \<lparr>IP = 167837952, Mask = 24\<rparr>) = ''10.1.1.0/24''"
    "IPNet_String (Some \<lparr>IP = 167776512, Mask = 24\<rparr>) = ''10.0.17.0/24''"
    by (simp_all add: eval_string)
  have c1: "State (Create_from_cidrs FindAvailableCIDR
      (testAccExampleResourceConfig [''10.1.0.0/16''] [''10.1.0.0/24''] 24) new_response) =
     Some ((Plan_Get_data
        (testAccExampleResourceConfig [''10.1.0.0/16''] [''10.1.0.0/24''] 24))
          \<lparr>Id_attr := Some ''10.1.1.0/24'', Result := Some ''10.1.1.0/24''\<rparr>)"
    by (simp add: eval_create CIDRMask_def FindAvailableCIDR_def IPMask_ones_def p1 s
        find_test_example)
  have c2: "State (Create_from_cidrs FindAvailableCIDR
      (testAccExampleResourceConfig [''10.0.0.0/16''] [''10.0.0.0/20'', ''10.0.16.0/24''] 24)
      new_response) =
     Some ((Plan_Get_data
        (testAccExampleResourceConfig [''10.0.0.0/16''] [''10.0.0.0/20'', ''10.0.16.0/24''] 24))
          \<lparr>Id_attr := Some ''10.0.17.0/24'', Result := Some ''10.0.17.0/24''\<rparr>)"
    by (simp add: eval_create CIDRMask_def FindAvailableCIDR_def IPMask_ones_def p1 s
        find_doc_example)
  from a b find_test_example find_doc_example c1 c2 show ?thesis by blast
qed


theorem first_fit_witness:
  "IP_Mask 167837696 16 = 167837696 \<and> (24::nat) \<le> 32 \<and>
   FindAvailableCidr \<lparr>IP = 167837696, Mask = 16\<rparr> 24 [\<lparr>IP = 167837696, Mask = 24\<rparr>] =
     Inr \<lparr>IP = 167837952, Mask = 24\<rparr> \<and>
   (\<exists>i<candidateCount \<lparr>IP = 167837696, Mask = 16\<rparr> 24.
      \<lparr>IP = 167837952, Mask = 24\<rparr> = candidate \<lparr>IP = 167837696, Mask = 16\<rparr> 24 i \<and>
      \<not> list_ex (overlaps \<lparr>IP = 167837952, Mask = 24\<rparr>) [\<lparr>IP = 167837696, Mask = 24\<rparr>] \<and>
      (\<forall>j<i. list_ex (overlaps (candidate \<lparr>IP = 167837696, Mask = 16\<rparr> 24 j))
         [\<lparr>IP = 167837696, Mask = 24\<rparr>])) \<and>
   (2::nat) < candidateCount \<lparr>IP = 167837696, Mask = 16\<rparr> 24 \<and>
   \<not> list_ex (overlaps (candidate \<lparr>IP = 167837696, Mask = 16\<rparr> 24 2))
      [\<lparr>IP = 167837696, Mask = 24\<rparr>] \<and>
   firstAddress \<lparr>IP = 167837952, Mask = 24\<rparr> \<le>
     firstAddress (candidate \<lparr>IP = 167837696, Mask = 16\<rparr> 24 2)"
proof -
  have h: "IP_Mask 167837696 16 = 167837696"
    by (simp add: IP_Mask_def mask_eq_exp_minus_1)
  have n: "(2::nat) < candidateCount \<lparr>IP = 167837696, Mask = 16\<rparr> 24"
    by (simp add: candidateCount_def block_size_def)
  have fr: "\<not> list_ex (overlaps (candidate \<lparr>IP = 167837696, Mask = 16\<rparr> 24 2))
      [\<lparr>IP = 167837696, Mask = 24\<rparr>]"
    by (simp add: candidate_def overlaps_def firstAddress_def lastAddress_def block_size_def)
  from h n fr find_test_example
    first_fit [of "\<lparr>IP = 167837696, Mask = 16\<rparr>" 24
      "[\<lparr>IP = 167837696, Mask = 24\<rparr>]" "\<lparr>IP = 167837952, Mask = 24\<rparr>"]
  show ?thesis by simp
qed

end
